theory Spec2Isabelle
  imports Main "HOL-Library.AList"
begin

section \<open>Errors and panics\<close>

text \<open>
  Go errors as values. \<open>Error m\<close> is \<^verbatim>\<open>errors.New\<close>/\<^verbatim>\<open>errors.Errorf\<close> with the
  formatted message \<open>m\<close>; \<open>Wrap e m\<close> is \<^verbatim>\<open>errors.Wrap(e, m)\<close> applied to a non-nil
  \<open>e\<close>. A Go \<^verbatim>\<open>error\<close> result is an \<open>error option\<close>, \<open>None\<close> for \<^verbatim>\<open>nil\<close>.
  \<open>errorString\<close> is the \<^verbatim>\<open>Error()\<close> method, which \<^verbatim>\<open>%v\<close> prints.
\<close>

datatype error = Error string | Wrap error string

fun errorString :: "error \<Rightarrow> string" where
  "errorString (Error m) = m"
| "errorString (Wrap e m) = m @ '': '' @ errorString e"

text \<open>
  The two run-time panics the orchestrator itself can raise: selecting a field through a
  nil pointer, and \<^verbatim>\<open>close\<close> of a channel that is closed already. A function that can
  panic returns an \<open>outcome\<close>.
\<close>

datatype panic = NilPointerDereference | CloseOfClosedChannel

datatype 'a outcome = Return 'a | Panic panic

section \<open>The collaborators\<close>

text \<open>
  The packages \<^verbatim>\<open>exchange\<close> and \<^verbatim>\<open>robot\<close> are consumed through their interfaces only.
  A trade context carries its identifier. A venue connector carries its name and the
  finite, restartable sequence of trade contexts its cursor yields (every walk of
  \<^verbatim>\<open>GetTradeContextCursor()\<close> with \<^verbatim>\<open>Next()\<close> until \<^verbatim>\<open>ok\<close> is false visits this list).
  A venue's configuration value is opaque.
\<close>

datatype tradeContext = TradeContext (GetID: string)

datatype exchange = Exchange (GetName: string) (GetTradeContextCursor: "tradeContext list")

datatype conf = Conf string

type_synonym exchangeNewFunc = "conf \<Rightarrow> error + exchange"

text \<open>The calls into the venue connectors and the robot whose error the core inspects.\<close>

datatype call =
    CreateTradeAlgorithms string tradeContext
  | UpdateTradeAlgorithms string tradeContext
  | DestroyTradeAlgorithms string tradeContext
  | StartStreaming exchange tradeContext
  | StopStreaming exchange tradeContext
  | CreateArbitrageTradeAlgorithms "(string \<times> exchange) list"
  | UpdateArbitrageTradeAlgorithms "(string \<times> exchange) list"
  | DestroyArbitrageTradeAlgorithms "(string \<times> exchange) list"

text \<open>
  What a run does to the outside, in order: each inspected call with the error it
  returned, each \<^verbatim>\<open>log.Printf\<close> line, the launch of the HTTP server on an address, the
  blocking close of that server, a venue constructor applied to a configuration, the
  \<^verbatim>\<open>Initialize\<close> call on a fresh connector, the \<^verbatim>\<open>go i.ArbitrageLoop()\<close> statement and
  the close of the loop's finish channel.
\<close>

datatype event =
    Call call "error option"
  | Log string
  | ListenAndServe string
  | BlockingClose string
  | NewExchange string conf
  | ExchangeInitialize exchange
  | GoArbitrageLoop
  | CloseFinishChan

text \<open>The two cases of the \<^verbatim>\<open>select\<close> in \<^verbatim>\<open>ArbitrageLoop\<close>.\<close>

datatype selectCase = FinishCase | TickCase

text \<open>
  The environment of a run. \<open>GetRegisterdExchanges\<close> is the registry of constructors in
  the order this run's \<^verbatim>\<open>range\<close> visits it (a nil function is \<open>None\<close>).
  \<open>exchangesConfigFields\<close> lists the fields of the struct type \<^verbatim>\<open>exchangesConfig\<close>, declared
  outside the given sources: the Go name of each field and its \<^verbatim>\<open>config\<close> tag.
  \<open>startChan\<close> is what \<^verbatim>\<open>initHttpServer\<close>'s \<^verbatim>\<open>select\<close> receives: \<open>Some err\<close> when
  \<^verbatim>\<open>ListenAndServe\<close> fails within the second, \<open>None\<close> when the timer fires first.
  \<open>reply\<close> is the error a collaborator returns for a call, given everything that
  happened before it. \<open>rangeRank\<close> decides the order in which a \<^verbatim>\<open>range\<close> over the map
  \<^verbatim>\<open>i.exchanges\<close> visits its entries (lower rank first), which Go leaves unspecified and
  may change from one loop to the next. \<open>NewNotifier\<close> and \<open>NewRobot\<close> are the outcomes
  of the two constructors \<^verbatim>\<open>NewIntegrator\<close> calls. \<open>timerFired\<close> and \<open>selectBoth\<close>
  belong to the \<^verbatim>\<open>select\<close> of \<^verbatim>\<open>ArbitrageLoop\<close> when it finds the finish channel
  closed: whether the 500 ms timer of this pass has fired as well, and which of the two
  ready cases the runtime then takes.
\<close>

record env =
  GetRegisterdExchanges :: "(string \<times> exchangeNewFunc option) list"
  exchangesConfigFields :: "(string \<times> string) list"
  startChan :: "event list \<Rightarrow> string \<Rightarrow> error option"
  reply :: "event list \<Rightarrow> call \<Rightarrow> error option"
  rangeRank :: "event list \<Rightarrow> string \<Rightarrow> nat"
  NewNotifier :: "error option"
  NewRobot :: "error option"
  timerFired :: "event list \<Rightarrow> bool"
  selectBoth :: "event list \<Rightarrow> selectCase"

section \<open>Configuration and orchestrator state\<close>

text \<open>
  \<^verbatim>\<open>Config.Server\<close> and \<^verbatim>\<open>Config.Exchanges\<close> are pointers: \<open>None\<close> is nil. A non-nil
  \<^verbatim>\<open>exchangesConfig\<close> gives every field, by its Go name, a pointer to the venue's
  configuration or nil.
\<close>

record serverConfig =
  Debug :: bool
  AddrPort :: string

record Config =
  Server :: "serverConfig option"
  Exchanges :: "(string \<Rightarrow> conf option) option"

datatype chan = Open | Closed

text \<open>
  The \<^verbatim>\<open>Integrator\<close>. \<open>gracefulServer\<close> is nil or the server made for an address;
  \<open>exchanges\<close> is the map from venue name to connector, kept as an association list;
  \<open>trace\<close> is the run's effects so far (it is not a field of the Go struct).
\<close>

record Integrator =
  config :: Config
  gracefulServer :: "string option"
  exchanges :: "(string \<times> exchange) list"
  arbitrageLoopFinishChan :: chan
  trace :: "event list"

definition emit :: "event \<Rightarrow> Integrator \<Rightarrow> Integrator" where
  "emit ev i = i\<lparr>trace := trace i @ [ev]\<rparr>"

text \<open>
  \<^verbatim>\<open>for _, ex := range i.exchanges\<close>: every entry of the map once, in the order the
  environment picks for this loop.
\<close>

definition rangeExchanges :: "env \<Rightarrow> Integrator \<Rightarrow> (string \<times> exchange) list" where
  "rangeExchanges env i = sort_key (\<lambda>p. rangeRank env (trace i) (fst p)) (exchanges i)"

definition perform :: "env \<Rightarrow> call \<Rightarrow> Integrator \<Rightarrow> error option \<times> Integrator" where
  "perform env c i = (let r = reply env (trace i) c in (r, emit (Call c r) i))"

definition NewIntegrator :: "env \<Rightarrow> Config \<Rightarrow> string \<Rightarrow> error + Integrator" where
  "NewIntegrator env cfg configDir =
    (case NewNotifier env of
       Some err \<Rightarrow> Inl (Wrap err (''can not create notifier (config dir = '' @ configDir
                          @ '', reason = '' @ errorString err @ '')''))
     | None \<Rightarrow>
        (case NewRobot env of
           Some err \<Rightarrow> Inl (Wrap err (''can not create robot (config dir = '' @ configDir
                              @ '', reason = '' @ errorString err @ '')''))
         | None \<Rightarrow> Inr \<lparr>config = cfg, gracefulServer = None, exchanges = [],
                         arbitrageLoopFinishChan = Open, trace = []\<rparr>))"

section \<open>Control-plane server\<close>

text \<open>
  \<^verbatim>\<open>initHttpServer\<close>. Setting up the gin engine and its two routes has no effect the
  orchestrator observes and is left out. The goroutine running \<^verbatim>\<open>ListenAndServe\<close> and
  the \<^verbatim>\<open>select\<close> between \<^verbatim>\<open>startChan\<close> and the one-second timer are the event
  \<open>ListenAndServe\<close> and the environment's \<open>startChan\<close>. \<^verbatim>\<open>Finalize\<close> selects
  \<^verbatim>\<open>i.gracefulServer.server\<close> without a nil test.
\<close>

definition initHttpServer :: "env \<Rightarrow> Integrator \<Rightarrow> error option outcome \<times> Integrator" where
  "initHttpServer env i =
    (case Server (config i) of
       None \<Rightarrow> (Panic NilPointerDereference, i)
     | Some sc \<Rightarrow>
        if AddrPort sc = [] then (Return None, i)
        else
          (let i1 = emit (ListenAndServe (AddrPort sc)) (i\<lparr>gracefulServer := Some (AddrPort sc)\<rparr>)
           in case startChan env (trace i) (AddrPort sc) of
                Some err \<Rightarrow>
                  (Return (Some (Wrap err (''can not start http server ('' @ AddrPort sc @ '')''))), i1)
              | None \<Rightarrow> (Return None, i1)))"

definition Finalize :: "Integrator \<Rightarrow> error option outcome \<times> Integrator" where
  "Finalize i =
    (case gracefulServer i of
       None \<Rightarrow> (Panic NilPointerDereference, i)
     | Some addr \<Rightarrow> (Return None, emit (BlockingClose addr) i))"

section \<open>Streaming-update callback\<close>

definition streamingCallback :: "env \<Rightarrow> tradeContext \<Rightarrow> Integrator \<Rightarrow> error option \<times> Integrator" where
  "streamingCallback env tradeContext i =
    (let tradeID = GetID tradeContext;
         (err, i1) = perform env (UpdateTradeAlgorithms tradeID tradeContext) i
     in case err of
          Some e \<Rightarrow> (None, emit (Log (''can not run algorithm (reason = '' @ errorString e @ '')'')) i1)
        | None \<Rightarrow> (None, i1))"

section \<open>Venue registry\<close>

text \<open>
  The inner loop of \<^verbatim>\<open>Initialize\<close> over the fields of \<^verbatim>\<open>exchangesConfig\<close>, for one
  registered name and constructor. \<open>Return None\<close> is the loop running to its end,
  \<open>Return (Some e)\<close> is \<^verbatim>\<open>return e\<close> from inside the loop. The result of
  \<^verbatim>\<open>i.Finalize()\<close> is dropped, its panic is not.
\<close>

fun initFields ::
  "string \<Rightarrow> exchangeNewFunc option \<Rightarrow> (string \<times> string) list \<Rightarrow> Integrator
    \<Rightarrow> error option outcome \<times> Integrator" where
  "initFields name exchangeNewFunc [] i = (Return None, i)"
| "initFields name exchangeNewFunc ((fname, tag) # fs) i =
    (if tag \<noteq> name then initFields name exchangeNewFunc fs i
     else case Exchanges (config i) of
       None \<Rightarrow> initFields name exchangeNewFunc fs i
     | Some v \<Rightarrow>
        (case v fname of
           None \<Rightarrow> initFields name exchangeNewFunc fs i
         | Some cf \<Rightarrow>
            (case exchangeNewFunc of
               None \<Rightarrow> initFields name exchangeNewFunc fs i
             | Some new \<Rightarrow>
                (let i1 = emit (NewExchange name cf) (emit (Log (name @ '' exchange create'')) i)
                 in case new cf of
                      Inl err \<Rightarrow>
                        (case Finalize i1 of
                           (Panic p, i2) \<Rightarrow> (Panic p, i2)
                         | (Return r, i2) \<Rightarrow>
                             (Return (Some (Wrap err (''can not create exchange of '' @ name))), i2))
                    | Inr ex \<Rightarrow>
                        initFields name exchangeNewFunc fs
                          ((emit (ExchangeInitialize ex) i1)
                             \<lparr>exchanges := AList.update name ex (exchanges i1)\<rparr>)))))"

fun initExchanges ::
  "(string \<times> string) list \<Rightarrow> (string \<times> exchangeNewFunc option) list \<Rightarrow> Integrator
    \<Rightarrow> error option outcome \<times> Integrator" where
  "initExchanges t [] i = (Return None, i)"
| "initExchanges t ((name, exchangeNewFunc) # rest) i =
    (case initFields name exchangeNewFunc t i of
       (Return None, i1) \<Rightarrow> initExchanges t rest i1
     | (Return (Some e), i1) \<Rightarrow> (Return (Some e), i1)
     | (Panic p, i1) \<Rightarrow> (Panic p, i1))"

text \<open>
  \<^verbatim>\<open>Initialize\<close>. When \<^verbatim>\<open>initHttpServer\<close> returns an error the source builds a new
  error with \<^verbatim>\<open>errors.Errorf\<close> and drops it: there is no \<^verbatim>\<open>return\<close>, and the venue loop
  runs in either case.
\<close>

definition Initialize :: "env \<Rightarrow> Integrator \<Rightarrow> error option outcome \<times> Integrator" where
  "Initialize env i =
    (case initHttpServer env i of
       (Panic p, i1) \<Rightarrow> (Panic p, i1)
     | (Return err, i1) \<Rightarrow>
        (let dropped = map_option
               (\<lambda>e. Error (''can not initalize of http server (reason = '' @ errorString e @ '')'')) err
         in initExchanges (exchangesConfigFields env) (GetRegisterdExchanges env) i1))"

section \<open>Streaming lifecycle\<close>

fun stopContexts :: "env \<Rightarrow> exchange \<Rightarrow> tradeContext list \<Rightarrow> Integrator \<Rightarrow> Integrator" where
  "stopContexts env ex [] i = i"
| "stopContexts env ex (tradeContext # cs) i =
    (let (err, i1) = perform env (StopStreaming ex tradeContext) i;
         i2 = (case err of
                 Some e \<Rightarrow> emit (Log (''can not stop streaming (name = '' @ GetName ex @ '')'')) i1
               | None \<Rightarrow> i1);
         tradeID = GetID tradeContext;
         (err', i3) = perform env (DestroyTradeAlgorithms tradeID tradeContext) i2;
         i4 = (case err' of
                 Some e \<Rightarrow> emit (Log (''can not destroy algorithm (name = '' @ GetName ex
                                      @ '', reason = '' @ errorString e @ '')'')) i3
               | None \<Rightarrow> i3)
     in stopContexts env ex cs i4)"

fun stopExchanges :: "env \<Rightarrow> (string \<times> exchange) list \<Rightarrow> Integrator \<Rightarrow> Integrator" where
  "stopExchanges env [] i = i"
| "stopExchanges env ((name, ex) # rest) i =
    stopExchanges env rest (stopContexts env ex (GetTradeContextCursor ex) i)"

definition stopStreaming :: "env \<Rightarrow> Integrator \<Rightarrow> error option \<times> Integrator" where
  "stopStreaming env i =
    (None, stopExchanges env (rangeExchanges env i) i)"

text \<open>
  The loops of \<^verbatim>\<open>startStreaming\<close>: \<open>(None, i')\<close> is the loop running to its end,
  \<open>(Some e, i')\<close> is \<^verbatim>\<open>return e\<close> from inside it, after \<^verbatim>\<open>i.stopStreaming()\<close>.
\<close>

fun startContexts ::
  "env \<Rightarrow> exchange \<Rightarrow> tradeContext list \<Rightarrow> Integrator \<Rightarrow> error option \<times> Integrator" where
  "startContexts env ex [] i = (None, i)"
| "startContexts env ex (tradeContext # cs) i =
    (let tradeID = GetID tradeContext;
         (err, i1) = perform env (CreateTradeAlgorithms tradeID tradeContext) i
     in case err of
          Some e \<Rightarrow>
            (Some (Wrap e (''can not create algorithm  (name = '' @ GetName ex @ '')'')),
             snd (stopStreaming env i1))
        | None \<Rightarrow>
            (let (err', i2) = perform env (StartStreaming ex tradeContext) i1
             in case err' of
                  Some e \<Rightarrow>
                    (Some (Wrap e (''can not start streaming (name = '' @ GetName ex @ '')'')),
                     snd (stopStreaming env i2))
                | None \<Rightarrow> startContexts env ex cs i2))"

fun startExchanges ::
  "env \<Rightarrow> (string \<times> exchange) list \<Rightarrow> Integrator \<Rightarrow> error option \<times> Integrator" where
  "startExchanges env [] i = (None, i)"
| "startExchanges env ((name, ex) # rest) i =
    (case startContexts env ex (GetTradeContextCursor ex) i of
       (Some e, i1) \<Rightarrow> (Some e, i1)
     | (None, i1) \<Rightarrow> startExchanges env rest i1)"

definition startStreaming :: "env \<Rightarrow> Integrator \<Rightarrow> error option \<times> Integrator" where
  "startStreaming env i = startExchanges env (rangeExchanges env i) i"

section \<open>Arbitrage\<close>

text \<open>
  \<^verbatim>\<open>ArbitrageLoop\<close>. Each pass is one \<^verbatim>\<open>select\<close> with two cases, written side by
  side: the receive from the finish channel, which can proceed once the channel is
  closed (nothing is ever sent on it), and the receive from the timer that
  \<^verbatim>\<open>time.After(500 * time.Millisecond)\<close> starts for this pass. With the channel open
  the select waits for the timer. With the channel closed and the timer not fired it
  takes the finish case. With both ready Go picks one of them pseudo-randomly: the
  statement gives neither priority, so the pick is the environment's.
  \<open>arbitrageTick\<close> is the body of the timer case. The loop has no other exit than the
  finish case, so it is a partial function: \<open>None\<close> is a loop that never returns.
\<close>

definition arbitrageSelect :: "env \<Rightarrow> Integrator \<Rightarrow> selectCase" where
  "arbitrageSelect env i =
    (case arbitrageLoopFinishChan i of
       Open \<Rightarrow> TickCase
     | Closed \<Rightarrow> (if timerFired env (trace i) then selectBoth env (trace i) else FinishCase))"

definition arbitrageTick :: "env \<Rightarrow> Integrator \<Rightarrow> Integrator" where
  "arbitrageTick env i =
    (let (err, i1) = perform env (UpdateArbitrageTradeAlgorithms (exchanges i)) i
     in case err of
          Some e \<Rightarrow>
            emit (Log (''can not update arbitrage algorithm (reason = '' @ errorString e @ '')'')) i1
        | None \<Rightarrow> i1)"

partial_function (option) ArbitrageLoop :: "env \<Rightarrow> Integrator \<Rightarrow> Integrator option" where
  "ArbitrageLoop env i =
    (case arbitrageSelect env i of
       FinishCase \<Rightarrow> Some i
     | TickCase \<Rightarrow> ArbitrageLoop env (arbitrageTick env i))"

text \<open>
  \<^verbatim>\<open>startArbitrage\<close> launches the loop on a goroutine of its own (\<open>GoArbitrageLoop\<close>);
  \<^verbatim>\<open>stopArbitrageTrade\<close> closes the finish channel and returns without waiting for the
  loop to end. \<^verbatim>\<open>close\<close> of a closed channel panics.
\<close>

definition startArbitrage :: "env \<Rightarrow> Integrator \<Rightarrow> error option \<times> Integrator" where
  "startArbitrage env i =
    (let (err, i1) = perform env (CreateArbitrageTradeAlgorithms (exchanges i)) i
     in case err of
          Some e \<Rightarrow> (Some (Wrap e ''can not create arbitrage algorithm''), i1)
        | None \<Rightarrow> (None, emit GoArbitrageLoop i1))"

definition stopArbitrageTrade :: "env \<Rightarrow> Integrator \<Rightarrow> error option outcome \<times> Integrator" where
  "stopArbitrageTrade env i =
    (case arbitrageLoopFinishChan i of
       Closed \<Rightarrow> (Panic CloseOfClosedChannel, i)
     | Open \<Rightarrow>
        (let i1 = emit CloseFinishChan (i\<lparr>arbitrageLoopFinishChan := Closed\<rparr>);
             (err, i2) = perform env (DestroyArbitrageTradeAlgorithms (exchanges i1)) i1
         in case err of
              Some e \<Rightarrow>
                (Return None,
                 emit (Log (''can not destroy arbitrage algorithm (reason = '' @ errorString e @ '')'')) i2)
            | None \<Rightarrow> (Return None, i2)))"

section \<open>Orchestrator\<close>

definition Start :: "env \<Rightarrow> Integrator \<Rightarrow> error option \<times> Integrator" where
  "Start env i =
    (case startStreaming env i of
       (Some e, i1) \<Rightarrow> (Some (Wrap e ''can not start streaming''), i1)
     | (None, i1) \<Rightarrow>
        (case startArbitrage env i1 of
           (Some e, i2) \<Rightarrow> (Some (Wrap e ''can not start arbitarage''), i2)
         | (None, i2) \<Rightarrow> (None, i2)))"

definition Stop :: "env \<Rightarrow> Integrator \<Rightarrow> error option outcome \<times> Integrator" where
  "Stop env i =
    (case stopArbitrageTrade env i of
       (Panic p, i1) \<Rightarrow> (Panic p, i1)
     | (Return err, i1) \<Rightarrow>
        (let i2 = (case err of
                     Some e \<Rightarrow> emit (Log (''can not stop arbitarage (reason = '' @ errorString e @ '')'')) i1
                   | None \<Rightarrow> i1);
             (err', i3) = stopStreaming env i2
         in case err' of
              Some e \<Rightarrow>
                (Return None, emit (Log (''can not stop streaming (reason = '' @ errorString e @ '')'')) i3)
            | None \<Rightarrow> (Return None, i3)))"

section \<open>Plans of the loops\<close>

text \<open>
  The theorems describe a run against what the loops set out to do. \<open>contextsOf\<close>
  lists, for the venues in the order visited, every context of every venue with its
  venue. \<open>stopEvents\<close> is what \<^verbatim>\<open>stopStreaming\<close> does for one context, given the two
  errors it got back. \<open>appendTrace\<close> adds effects to a state.
\<close>

definition contextsOf :: "(string \<times> exchange) list \<Rightarrow> (exchange \<times> tradeContext) list" where
  "contextsOf exs = concat (map (\<lambda>p. map (Pair (snd p)) (GetTradeContextCursor (snd p))) exs)"

definition stopEvents :: "exchange \<times> tradeContext \<Rightarrow> error option \<times> error option \<Rightarrow> event list" where
  "stopEvents p rs =
    Call (StopStreaming (fst p) (snd p)) (fst rs)
    # (case fst rs of
         Some e \<Rightarrow> [Log (''can not stop streaming (name = '' @ GetName (fst p) @ '')'')]
       | None \<Rightarrow> [])
    @ Call (DestroyTradeAlgorithms (GetID (snd p)) (snd p)) (snd rs)
    # (case snd rs of
         Some e \<Rightarrow> [Log (''can not destroy algorithm (name = '' @ GetName (fst p)
                         @ '', reason = '' @ errorString e @ '')'')]
       | None \<Rightarrow> [])"

definition appendTrace :: "event list \<Rightarrow> Integrator \<Rightarrow> Integrator" where
  "appendTrace evs i = i\<lparr>trace := trace i @ evs\<rparr>"

text \<open>
  \<open>startCalls\<close> is the sequence of calls \<^verbatim>\<open>startStreaming\<close> makes when none fails, each
  with its venue; \<open>startMessage\<close> is the text the source wraps a failure of such a call
  in; \<open>okTrace\<close> is the effect of calls that all returned nil. \<open>runStart\<close> goes
  through a list of calls the way the two nested loops do; the loops are shown equal to
  it on \<open>startCalls\<close> below.
\<close>

definition startCalls :: "(string \<times> exchange) list \<Rightarrow> (exchange \<times> call) list" where
  "startCalls exs =
    concat (map (\<lambda>p. [(fst p, CreateTradeAlgorithms (GetID (snd p)) (snd p)),
                       (fst p, StartStreaming (fst p) (snd p))]) (contextsOf exs))"

definition startMessage :: "exchange \<times> call \<Rightarrow> string" where
  "startMessage p =
    (case snd p of
       CreateTradeAlgorithms tradeID c \<Rightarrow> ''can not create algorithm  (name = '' @ GetName (fst p) @ '')''
     | _ \<Rightarrow> ''can not start streaming (name = '' @ GetName (fst p) @ '')'')"

definition okTrace :: "(exchange \<times> call) list \<Rightarrow> event list" where
  "okTrace plan = map (\<lambda>p. Call (snd p) None) plan"

fun runStart :: "env \<Rightarrow> (exchange \<times> call) list \<Rightarrow> Integrator \<Rightarrow> error option \<times> Integrator" where
  "runStart env [] i = (None, i)"
| "runStart env (p # ps) i =
    (case reply env (trace i) (snd p) of
       Some e \<Rightarrow>
         (Some (Wrap e (startMessage p)),
          snd (stopStreaming env (appendTrace [Call (snd p) (Some e)] i)))
     | None \<Rightarrow> runStart env ps (appendTrace [Call (snd p) None] i))"

text \<open>
  For a state: the calls \<^verbatim>\<open>startStreaming\<close> is to make from it, and the history before
  the \<open>k\<close>-th of them when the earlier ones succeeded.
\<close>

definition startPlan :: "env \<Rightarrow> Integrator \<Rightarrow> (exchange \<times> call) list" where
  "startPlan env i = startCalls (rangeExchanges env i)"

definition startHistory :: "env \<Rightarrow> Integrator \<Rightarrow> nat \<Rightarrow> event list" where
  "startHistory env i k = trace i @ okTrace (take k (startPlan env i))"

text \<open>Effects that belong to the arbitrage start, and to the teardown of streaming.\<close>

fun startedArbitrage :: "event \<Rightarrow> bool" where
  "startedArbitrage (Call (CreateArbitrageTradeAlgorithms exs) r) = True"
| "startedArbitrage GoArbitrageLoop = True"
| "startedArbitrage ev = False"

fun stoppedStreaming :: "event \<Rightarrow> bool" where
  "stoppedStreaming (Call (StopStreaming ex c) r) = True"
| "stoppedStreaming (Call (DestroyTradeAlgorithms tradeID c) r) = True"
| "stoppedStreaming ev = False"

section \<open>Plan of the venue registry\<close>

text \<open>
  \<open>constructPlan\<close> lists the constructor calls \<^verbatim>\<open>Initialize\<close> is to make: for every
  registered name in turn, every field of \<^verbatim>\<open>exchangesConfig\<close> tagged with that name whose
  pointer is not nil, when \<^verbatim>\<open>Exchanges\<close> and the constructor are not nil.
  \<open>constructs\<close> says that a planned call returns a connector; \<open>register\<close> is the
  effect of one that does; \<open>runInit\<close> goes through a plan the way the two nested
  loops of \<^verbatim>\<open>Initialize\<close> do.
\<close>

definition fieldPlan ::
  "Config \<Rightarrow> string \<Rightarrow> exchangeNewFunc option \<Rightarrow> (string \<times> string) list
    \<Rightarrow> (string \<times> exchangeNewFunc \<times> conf) list" where
  "fieldPlan cfg name exchangeNewFunc fs =
    concat (map (\<lambda>f.
      if snd f \<noteq> name then []
      else case Exchanges cfg of
        None \<Rightarrow> []
      | Some v \<Rightarrow>
         (case v (fst f) of
            None \<Rightarrow> []
          | Some cf \<Rightarrow>
             (case exchangeNewFunc of
                None \<Rightarrow> []
              | Some new \<Rightarrow> [(name, new, cf)]))) fs)"

definition constructPlan :: "env \<Rightarrow> Config \<Rightarrow> (string \<times> exchangeNewFunc \<times> conf) list" where
  "constructPlan env cfg =
    concat (map (\<lambda>r. fieldPlan cfg (fst r) (snd r) (exchangesConfigFields env))
              (GetRegisterdExchanges env))"

definition constructs :: "string \<times> exchangeNewFunc \<times> conf \<Rightarrow> bool" where
  "constructs p = (case (fst (snd p)) (snd (snd p)) of Inr ex \<Rightarrow> True | Inl e \<Rightarrow> False)"

definition register :: "string \<times> exchangeNewFunc \<times> conf \<Rightarrow> Integrator \<Rightarrow> Integrator" where
  "register p i =
    (case (fst (snd p)) (snd (snd p)) of
       Inr ex \<Rightarrow>
         i\<lparr>trace := trace i @ [Log (fst p @ '' exchange create''), NewExchange (fst p) (snd (snd p)),
                               ExchangeInitialize ex],
           exchanges := AList.update (fst p) ex (exchanges i)\<rparr>
     | Inl e \<Rightarrow> i)"

fun runInit ::
  "(string \<times> exchangeNewFunc \<times> conf) list \<Rightarrow> Integrator \<Rightarrow> error option outcome \<times> Integrator" where
  "runInit [] i = (Return None, i)"
| "runInit (p # ps) i =
    (case (fst (snd p)) (snd (snd p)) of
       Inl err \<Rightarrow>
         (case gracefulServer i of
            None \<Rightarrow>
              (Panic NilPointerDereference,
               appendTrace [Log (fst p @ '' exchange create''), NewExchange (fst p) (snd (snd p))] i)
          | Some addr \<Rightarrow>
              (Return (Some (Wrap err (''can not create exchange of '' @ fst p))),
               appendTrace [Log (fst p @ '' exchange create''), NewExchange (fst p) (snd (snd p)),
                            BlockingClose addr] i))
     | Inr ex \<Rightarrow> runInit ps (register p i))"

section \<open>Example environments and states\<close>

text \<open>
  Concrete inputs for the closed theorems: an environment in which nothing fails, one in
  which stream-open and stream-stop fail, one in which every call fails, one in which
  only the creation of the arbitrage algorithms fails; a venue with two contexts; a
  fresh orchestrator with an empty server address and nil \<^verbatim>\<open>Exchanges\<close>, and the same
  with one registered venue.
\<close>

definition quietEnv :: env where
  "quietEnv = \<lparr>GetRegisterdExchanges = [], exchangesConfigFields = [],
     startChan = (\<lambda>tr addr. None), reply = (\<lambda>tr c. None),
     rangeRank = (\<lambda>tr name. 0), NewNotifier = None, NewRobot = None,
     timerFired = (\<lambda>tr. False), selectBoth = (\<lambda>tr. FinishCase)\<rparr>"

definition btcJpy :: tradeContext where
  "btcJpy = TradeContext ''BTC_JPY''"

definition ethJpy :: tradeContext where
  "ethJpy = TradeContext ''ETH_JPY''"

definition bitflyer :: exchange where
  "bitflyer = Exchange ''bitflyer'' [btcJpy, ethJpy]"

definition idleIntegrator :: Integrator where
  "idleIntegrator =
    \<lparr>config = \<lparr>Server = Some \<lparr>Debug = False, AddrPort = []\<rparr>, Exchanges = None\<rparr>,
     gracefulServer = None, exchanges = [], arbitrageLoopFinishChan = Open, trace = []\<rparr>"

definition readyIntegrator :: Integrator where
  "readyIntegrator = idleIntegrator\<lparr>exchanges := [(''bitflyer'', bitflyer)]\<rparr>"

definition refusingEnv :: env where
  "refusingEnv = quietEnv\<lparr>reply := (\<lambda>tr c. case c of
       StartStreaming ex tc \<Rightarrow> Some (Error ''refused'')
     | StopStreaming ex tc \<Rightarrow> Some (Error ''not streaming'')
     | _ \<Rightarrow> None)\<rparr>"

definition failingEnv :: env where
  "failingEnv = quietEnv\<lparr>reply := (\<lambda>tr c. Some (Error ''down''))\<rparr>"

definition noArbitrageEnv :: env where
  "noArbitrageEnv = quietEnv\<lparr>reply := (\<lambda>tr c. case c of
       CreateArbitrageTradeAlgorithms exs \<Rightarrow> Some (Error ''no arbitrage'')
     | _ \<Rightarrow> None)\<rparr>"

text \<open>
  An update of the arbitrage algorithms, and an environment in which the timer has
  always fired and the select takes the timer case until one update has run.
\<close>

fun tickedArbitrage :: "event \<Rightarrow> bool" where
  "tickedArbitrage (Call (UpdateArbitrageTradeAlgorithms exs) r) = True"
| "tickedArbitrage ev = False"

definition lateTickEnv :: env where
  "lateTickEnv = quietEnv
    \<lparr>timerFired := (\<lambda>tr. True),
     selectBoth := (\<lambda>tr. if list_ex tickedArbitrage tr then FinishCase else TickCase)\<rparr>"

text \<open>
  A configuration with a server address and two venues, an orchestrator for it, one
  whose \<^verbatim>\<open>Server\<close> pointer is nil, a registry in which the second constructor fails,
  and one whose server cannot bind.
\<close>

definition bitflyerConf :: conf where
  "bitflyerConf = Conf ''bitflyer.toml''"

definition zaifConf :: conf where
  "zaifConf = Conf ''zaif.toml''"

definition boundConfig :: Config where
  "boundConfig =
    \<lparr>Server = Some \<lparr>Debug = False, AddrPort = ''127.0.0.1:8080''\<rparr>,
     Exchanges = Some (\<lambda>f. if f = ''Bitflyer'' then Some bitflyerConf
                            else if f = ''Zaif'' then Some zaifConf else None)\<rparr>"

definition boundIntegrator :: Integrator where
  "boundIntegrator = idleIntegrator\<lparr>config := boundConfig\<rparr>"

definition headlessIntegrator :: Integrator where
  "headlessIntegrator = idleIntegrator\<lparr>config := \<lparr>Server = None, Exchanges = None\<rparr>\<rparr>"

definition venuesEnv :: env where
  "venuesEnv = quietEnv
    \<lparr>GetRegisterdExchanges :=
       [(''bitflyer'', Some (\<lambda>cf. Inr bitflyer)), (''zaif'', Some (\<lambda>cf. Inl (Error ''bad key'')))],
     exchangesConfigFields := [(''Bitflyer'', ''bitflyer''), (''Zaif'', ''zaif'')]\<rparr>"

definition portInUseEnv :: env where
  "portInUseEnv = quietEnv
    \<lparr>GetRegisterdExchanges := [(''bitflyer'', Some (\<lambda>cf. Inr bitflyer))],
     exchangesConfigFields := [(''Bitflyer'', ''bitflyer''), (''Zaif'', ''zaif'')],
     startChan := (\<lambda>tr addr. Some (Error ''bind: address already in use''))\<rparr>"

section \<open>Effects of the teardown\<close>

lemma appendTrace_Nil [simp]: "appendTrace [] i = i"
  by (simp add: appendTrace_def)

lemma appendTrace_appendTrace [simp]: "appendTrace ys (appendTrace xs i) = appendTrace (xs @ ys) i"
  by (simp add: appendTrace_def)

lemma emit_appendTrace: "emit ev i = appendTrace [ev] i"
  by (simp add: emit_def appendTrace_def)

lemma appendTrace_fields [simp]:
  "trace (appendTrace evs i) = trace i @ evs"
  "exchanges (appendTrace evs i) = exchanges i"
  "config (appendTrace evs i) = config i"
  "gracefulServer (appendTrace evs i) = gracefulServer i"
  "arbitrageLoopFinishChan (appendTrace evs i) = arbitrageLoopFinishChan i"
  by (simp_all add: appendTrace_def)

lemma perform_appendTrace:
  "perform env c i = (reply env (trace i) c, appendTrace [Call c (reply env (trace i) c)] i)"
  by (simp add: perform_def emit_appendTrace Let_def)

lemma stopContexts_step:
  "stopContexts env ex (c # cs) i =
     stopContexts env ex cs
       (appendTrace (stopEvents (ex, c)
          (reply env (trace i) (StopStreaming ex c),
           reply env (trace i @ Call (StopStreaming ex c) (reply env (trace i) (StopStreaming ex c))
                      # (case reply env (trace i) (StopStreaming ex c) of
                           Some e \<Rightarrow> [Log (''can not stop streaming (name = '' @ GetName ex @ '')'')]
                         | None \<Rightarrow> []))
             (DestroyTradeAlgorithms (GetID c) c))) i)"
  by (simp add: perform_appendTrace emit_appendTrace stopEvents_def Let_def split: option.split)

lemma stopContexts_trace:
  "\<exists>rs. length rs = length cs \<and>
        stopContexts env ex cs i = appendTrace (concat (map2 stopEvents (map (Pair ex) cs) rs)) i"
proof (induction cs arbitrary: i)
  case Nil
  then show ?case by simp
next
  case (Cons c cs)
  define r where "r = (reply env (trace i) (StopStreaming ex c),
           reply env (trace i @ Call (StopStreaming ex c) (reply env (trace i) (StopStreaming ex c))
                      # (case reply env (trace i) (StopStreaming ex c) of
                           Some e \<Rightarrow> [Log (''can not stop streaming (name = '' @ GetName ex @ '')'')]
                         | None \<Rightarrow> []))
             (DestroyTradeAlgorithms (GetID c) c))"
  have step: "stopContexts env ex (c # cs) i = stopContexts env ex cs (appendTrace (stopEvents (ex, c) r) i)"
    unfolding r_def by (rule stopContexts_step)
  from Cons.IH [of "appendTrace (stopEvents (ex, c) r) i"]
  obtain rs where rs: "length rs = length cs"
    "stopContexts env ex cs (appendTrace (stopEvents (ex, c) r) i)
       = appendTrace (concat (map2 stopEvents (map (Pair ex) cs) rs)) (appendTrace (stopEvents (ex, c) r) i)"
    by blast
  have "length (r # rs) = length (c # cs)" using rs(1) by simp
  moreover have "stopContexts env ex (c # cs) i
      = appendTrace (concat (map2 stopEvents (map (Pair ex) (c # cs)) (r # rs))) i"
    using step rs(2) by simp
  ultimately show ?case by blast
qed

lemma contextsOf_Nil [simp]: "contextsOf [] = []"
  by (simp add: contextsOf_def)

lemma contextsOf_Cons [simp]:
  "contextsOf (p # exs) = map (Pair (snd p)) (GetTradeContextCursor (snd p)) @ contextsOf exs"
  by (simp add: contextsOf_def)

lemma stopExchanges_trace:
  "\<exists>rs. length rs = length (contextsOf exs) \<and>
        stopExchanges env exs i = appendTrace (concat (map2 stopEvents (contextsOf exs) rs)) i"
proof (induction exs arbitrary: i)
  case Nil
  then show ?case by simp
next
  case (Cons p exs)
  obtain name ex where p: "p = (name, ex)" by (cases p)
  obtain rs1 where rs1: "length rs1 = length (GetTradeContextCursor ex)"
    "stopContexts env ex (GetTradeContextCursor ex) i
       = appendTrace (concat (map2 stopEvents (map (Pair ex) (GetTradeContextCursor ex)) rs1)) i"
    using stopContexts_trace by blast
  obtain rs2 where rs2: "length rs2 = length (contextsOf exs)"
    "stopExchanges env exs (stopContexts env ex (GetTradeContextCursor ex) i)
       = appendTrace (concat (map2 stopEvents (contextsOf exs) rs2))
           (stopContexts env ex (GetTradeContextCursor ex) i)"
    using Cons.IH by blast
  have "length (rs1 @ rs2) = length (contextsOf (p # exs))"
    using rs1(1) rs2(1) p by simp
  moreover have "stopExchanges env (p # exs) i
      = appendTrace (concat (map2 stopEvents (contextsOf (p # exs)) (rs1 @ rs2))) i"
    using rs1 rs2 p by simp
  ultimately show ?case by blast
qed

lemma set_rangeExchanges: "set (rangeExchanges env i) = set (exchanges i)"
  by (simp add: rangeExchanges_def)

lemma contextsOf_mem:
  "(ex, c) \<in> set (contextsOf exs) \<longleftrightarrow> (\<exists>name. (name, ex) \<in> set exs \<and> c \<in> set (GetTradeContextCursor ex))"
  by (induction exs) auto

lemma stopStreaming_trace:
  "\<exists>rs. length rs = length (contextsOf (rangeExchanges env i)) \<and>
        snd (stopStreaming env i)
          = appendTrace (concat (map2 stopEvents (contextsOf (rangeExchanges env i)) rs)) i"
  using stopExchanges_trace [of "rangeExchanges env i" env i] by (simp add: stopStreaming_def)

text \<open>
  Claim C6. \<^verbatim>\<open>stopStreaming\<close> always returns nil. Whatever errors \<open>rs\<close> the calls
  return, its effects are, for every context of every venue visited, in order: the
  stream-stop call, a log line if it failed, the destroy call, a log line if it failed.
  Every context of every venue of the registry is among those visited.
\<close>

theorem stopStreaming_best_effort:
  "fst (stopStreaming env i) = None \<and>
   (\<exists>rs. length rs = length (contextsOf (rangeExchanges env i)) \<and>
      snd (stopStreaming env i) =
        i\<lparr>trace := trace i @ concat (map2 stopEvents (contextsOf (rangeExchanges env i)) rs)\<rparr>) \<and>
   (\<forall>name ex c. (name, ex) \<in> set (exchanges i) \<longrightarrow> c \<in> set (GetTradeContextCursor ex) \<longrightarrow>
      (ex, c) \<in> set (contextsOf (rangeExchanges env i)))"
proof (intro conjI allI impI)
  show "fst (stopStreaming env i) = None"
    by (simp add: stopStreaming_def)
next
  from stopStreaming_trace [of env i]
  show "\<exists>rs. length rs = length (contextsOf (rangeExchanges env i)) \<and>
      snd (stopStreaming env i) =
        i\<lparr>trace := trace i @ concat (map2 stopEvents (contextsOf (rangeExchanges env i)) rs)\<rparr>"
    by (simp add: appendTrace_def)
next
  fix name ex c
  assume "(name, ex) \<in> set (exchanges i)" and "c \<in> set (GetTradeContextCursor ex)"
  then show "(ex, c) \<in> set (contextsOf (rangeExchanges env i))"
    unfolding contextsOf_mem set_rangeExchanges by blast
qed

lemma reply_failingEnv: "reply failingEnv tr c = Some (Error ''down'')"
  by (simp add: failingEnv_def)

lemma exchanges_ready: "exchanges readyIntegrator = [(''bitflyer'', bitflyer)]"
  by (simp add: readyIntegrator_def idleIntegrator_def)

text \<open>
  The theorem at a run in which every call fails: both contexts are still stopped and
  destroyed, every failure is logged, the result is nil.
\<close>

theorem stopStreaming_best_effort_witness:
  "fst (stopStreaming failingEnv readyIntegrator) = None \<and>
   trace (snd (stopStreaming failingEnv readyIntegrator)) =
     [Call (StopStreaming bitflyer btcJpy) (Some (Error ''down'')),
      Log ''can not stop streaming (name = bitflyer)'',
      Call (DestroyTradeAlgorithms ''BTC_JPY'' btcJpy) (Some (Error ''down'')),
      Log ''can not destroy algorithm (name = bitflyer, reason = down)'',
      Call (StopStreaming bitflyer ethJpy) (Some (Error ''down'')),
      Log ''can not stop streaming (name = bitflyer)'',
      Call (DestroyTradeAlgorithms ''ETH_JPY'' ethJpy) (Some (Error ''down'')),
      Log ''can not destroy algorithm (name = bitflyer, reason = down)''] \<and>
   (bitflyer, ethJpy) \<in> set (contextsOf (rangeExchanges failingEnv readyIntegrator))"
proof (intro conjI)
  show "fst (stopStreaming failingEnv readyIntegrator) = None"
    using stopStreaming_best_effort [of failingEnv readyIntegrator] by blast
next
  show "trace (snd (stopStreaming failingEnv readyIntegrator)) =
     [Call (StopStreaming bitflyer btcJpy) (Some (Error ''down'')),
      Log ''can not stop streaming (name = bitflyer)'',
      Call (DestroyTradeAlgorithms ''BTC_JPY'' btcJpy) (Some (Error ''down'')),
      Log ''can not destroy algorithm (name = bitflyer, reason = down)'',
      Call (StopStreaming bitflyer ethJpy) (Some (Error ''down'')),
      Log ''can not stop streaming (name = bitflyer)'',
      Call (DestroyTradeAlgorithms ''ETH_JPY'' ethJpy) (Some (Error ''down'')),
      Log ''can not destroy algorithm (name = bitflyer, reason = down)'']"
    by (simp add: stopStreaming_def rangeExchanges_def perform_def emit_def Let_def
          failingEnv_def quietEnv_def readyIntegrator_def idleIntegrator_def
          bitflyer_def btcJpy_def ethJpy_def)
next
  have "(''bitflyer'', bitflyer) \<in> set (exchanges readyIntegrator)"
    by (simp add: exchanges_ready)
  moreover have "ethJpy \<in> set (GetTradeContextCursor bitflyer)"
    by (simp add: bitflyer_def)
  ultimately show "(bitflyer, ethJpy) \<in> set (contextsOf (rangeExchanges failingEnv readyIntegrator))"
    using stopStreaming_best_effort [of failingEnv readyIntegrator] by blast
qed

section \<open>The start loops follow their plan\<close>

lemma runStart_append:
  "runStart env (ps @ qs) i =
    (case runStart env ps i of (Some e, i1) \<Rightarrow> (Some e, i1) | (None, i1) \<Rightarrow> runStart env qs i1)"
  by (induction ps arbitrary: i) (simp_all split: option.split)

lemma startContexts_runStart:
  "startContexts env ex cs i =
     runStart env (concat (map (\<lambda>c. [(ex, CreateTradeAlgorithms (GetID c) c), (ex, StartStreaming ex c)]) cs)) i"
  by (induction cs arbitrary: i)
     (simp_all add: perform_appendTrace startMessage_def Let_def split: option.split)

lemma startCalls_Nil [simp]: "startCalls [] = []"
  by (simp add: startCalls_def)

lemma startCalls_Cons:
  "startCalls (p # exs) =
     concat (map (\<lambda>c. [(snd p, CreateTradeAlgorithms (GetID c) c), (snd p, StartStreaming (snd p) c)])
               (GetTradeContextCursor (snd p))) @ startCalls exs"
  by (simp add: startCalls_def comp_def)

lemma startExchanges_runStart: "startExchanges env exs i = runStart env (startCalls exs) i"
proof (induction exs arbitrary: i)
  case Nil
  then show ?case by simp
next
  case (Cons p exs)
  obtain name ex where p: "p = (name, ex)" by (cases p)
  show ?case
    by (simp add: p startCalls_Cons runStart_append startContexts_runStart Cons.IH
             split: prod.split option.split)
qed

lemma runStart_ok:
  "(\<And>k. k < length plan \<Longrightarrow> reply env (trace i @ okTrace (take k plan)) (snd (plan ! k)) = None)
   \<Longrightarrow> runStart env plan i = (None, appendTrace (okTrace plan) i)"
proof (induction plan arbitrary: i)
  case Nil
  then show ?case by (simp add: okTrace_def)
next
  case (Cons p ps)
  have h0: "reply env (trace i) (snd p) = None"
    using Cons.prems [of 0] by (simp add: okTrace_def)
  have "runStart env ps (appendTrace [Call (snd p) None] i)
          = (None, appendTrace (okTrace ps) (appendTrace [Call (snd p) None] i))"
  proof (rule Cons.IH)
    fix k assume "k < length ps"
    then show "reply env (trace (appendTrace [Call (snd p) None] i) @ okTrace (take k ps)) (snd (ps ! k)) = None"
      using Cons.prems [of "Suc k"] by (simp add: okTrace_def)
  qed
  then show ?case using h0 by (simp add: okTrace_def)
qed

lemma runStart_fail:
  "k < length plan \<Longrightarrow>
   (\<And>m. m < k \<Longrightarrow> reply env (trace i @ okTrace (take m plan)) (snd (plan ! m)) = None) \<Longrightarrow>
   reply env (trace i @ okTrace (take k plan)) (snd (plan ! k)) = Some err \<Longrightarrow>
   runStart env plan i =
     (Some (Wrap err (startMessage (plan ! k))),
      snd (stopStreaming env (appendTrace (okTrace (take k plan) @ [Call (snd (plan ! k)) (Some err)]) i)))"
proof (induction plan arbitrary: i k)
  case Nil
  then show ?case by simp
next
  case (Cons p ps)
  show ?case
  proof (cases k)
    case 0
    then show ?thesis using Cons.prems(3) by (simp add: okTrace_def)
  next
    case (Suc j)
    have h0: "reply env (trace i) (snd p) = None"
      using Cons.prems(2) [of 0] Suc by (simp add: okTrace_def)
    have j: "j < length ps" using Cons.prems(1) Suc by simp
    have "runStart env ps (appendTrace [Call (snd p) None] i) =
       (Some (Wrap err (startMessage (ps ! j))),
        snd (stopStreaming env (appendTrace (okTrace (take j ps) @ [Call (snd (ps ! j)) (Some err)])
               (appendTrace [Call (snd p) None] i))))"
    proof (rule Cons.IH [OF j])
      fix m assume "m < j"
      then show "reply env (trace (appendTrace [Call (snd p) None] i) @ okTrace (take m ps)) (snd (ps ! m)) = None"
        using Cons.prems(2) [of "Suc m"] Suc by (simp add: okTrace_def)
    next
      show "reply env (trace (appendTrace [Call (snd p) None] i) @ okTrace (take j ps)) (snd (ps ! j)) = Some err"
        using Cons.prems(3) Suc by (simp add: okTrace_def)
    qed
    then show ?thesis using h0 Suc by (simp add: okTrace_def)
  qed
qed

lemma startStreaming_runStart: "startStreaming env i = runStart env (startPlan env i) i"
  by (simp add: startStreaming_def startPlan_def startExchanges_runStart)

text \<open>
  Claim C5. \<^verbatim>\<open>startStreaming\<close> makes the calls of \<open>startPlan\<close> in order (for every
  venue visited and every context of its cursor, create the decision engine, then open
  the stream). If the \<open>k\<close>-th call is the first to return an error, the result is that
  error wrapped in the message naming the venue of that call, and the final state is
  exactly the state \<^verbatim>\<open>stopStreaming\<close> leaves when run right after the failed call:
  nothing further is attempted. If every call returns nil, \<^verbatim>\<open>startStreaming\<close> returns
  nil after the whole plan.
\<close>

theorem startStreaming_rollback:
  "(\<forall>k<length (startPlan env i).
      (\<forall>m<k. reply env (startHistory env i m) (snd (startPlan env i ! m)) = None) \<longrightarrow>
      (\<forall>err. reply env (startHistory env i k) (snd (startPlan env i ! k)) = Some err \<longrightarrow>
         startStreaming env i =
           (Some (Wrap err (startMessage (startPlan env i ! k))),
            snd (stopStreaming env
                  (i\<lparr>trace := startHistory env i k @ [Call (snd (startPlan env i ! k)) (Some err)]\<rparr>)))))
   \<and> ((\<forall>k<length (startPlan env i).
          reply env (startHistory env i k) (snd (startPlan env i ! k)) = None) \<longrightarrow>
        startStreaming env i = (None, i\<lparr>trace := startHistory env i (length (startPlan env i))\<rparr>))"
proof (intro conjI allI impI)
  fix k err
  assume k: "k < length (startPlan env i)"
    and before: "\<forall>m<k. reply env (startHistory env i m) (snd (startPlan env i ! m)) = None"
    and fails: "reply env (startHistory env i k) (snd (startPlan env i ! k)) = Some err"
  have "runStart env (startPlan env i) i =
     (Some (Wrap err (startMessage (startPlan env i ! k))),
      snd (stopStreaming env
        (appendTrace (okTrace (take k (startPlan env i)) @ [Call (snd (startPlan env i ! k)) (Some err)]) i)))"
    using k before fails by (intro runStart_fail) (simp_all add: startHistory_def)
  then show "startStreaming env i =
           (Some (Wrap err (startMessage (startPlan env i ! k))),
            snd (stopStreaming env
                  (i\<lparr>trace := startHistory env i k @ [Call (snd (startPlan env i ! k)) (Some err)]\<rparr>)))"
    by (simp add: startStreaming_runStart startHistory_def appendTrace_def)
next
  assume ok: "\<forall>k<length (startPlan env i).
          reply env (startHistory env i k) (snd (startPlan env i ! k)) = None"
  have "runStart env (startPlan env i) i = (None, appendTrace (okTrace (startPlan env i)) i)"
    using ok by (intro runStart_ok) (simp add: startHistory_def)
  then show "startStreaming env i = (None, i\<lparr>trace := startHistory env i (length (startPlan env i))\<rparr>)"
    by (simp add: startStreaming_runStart startHistory_def appendTrace_def)
qed

text \<open>Evaluation on the example venue.\<close>

lemma readyPlan:
  "startPlan env readyIntegrator =
     [(bitflyer, CreateTradeAlgorithms ''BTC_JPY'' btcJpy), (bitflyer, StartStreaming bitflyer btcJpy),
      (bitflyer, CreateTradeAlgorithms ''ETH_JPY'' ethJpy), (bitflyer, StartStreaming bitflyer ethJpy)]"
  by (simp add: startPlan_def startCalls_def rangeExchanges_def readyIntegrator_def idleIntegrator_def
        bitflyer_def btcJpy_def ethJpy_def)

lemma reply_refusingEnv:
  "reply refusingEnv tr c =
    (case c of
       StartStreaming ex tc \<Rightarrow> Some (Error ''refused'')
     | StopStreaming ex tc \<Rightarrow> Some (Error ''not streaming'')
     | _ \<Rightarrow> None)"
  by (simp add: refusingEnv_def)

lemma reply_quietEnv: "reply quietEnv tr c = None"
  by (simp add: quietEnv_def)

lemma trace_ready [simp]: "trace readyIntegrator = []"
  by (simp add: readyIntegrator_def idleIntegrator_def)

text \<open>
  The theorem at a concrete run: the stream-open of the first context is refused, the
  rollback walks both contexts (stream-stop fails and is logged, destroy succeeds);
  in the quiet environment all four calls are made and the result is nil.
\<close>

theorem startStreaming_rollback_witness:
  "startStreaming refusingEnv readyIntegrator =
     (Some (Wrap (Error ''refused'') ''can not start streaming (name = bitflyer)''),
      readyIntegrator\<lparr>trace :=
        [Call (CreateTradeAlgorithms ''BTC_JPY'' btcJpy) None,
         Call (StartStreaming bitflyer btcJpy) (Some (Error ''refused'')),
         Call (StopStreaming bitflyer btcJpy) (Some (Error ''not streaming'')),
         Log ''can not stop streaming (name = bitflyer)'',
         Call (DestroyTradeAlgorithms ''BTC_JPY'' btcJpy) None,
         Call (StopStreaming bitflyer ethJpy) (Some (Error ''not streaming'')),
         Log ''can not stop streaming (name = bitflyer)'',
         Call (DestroyTradeAlgorithms ''ETH_JPY'' ethJpy) None]\<rparr>)
   \<and> startStreaming quietEnv readyIntegrator =
     (None, readyIntegrator\<lparr>trace :=
        [Call (CreateTradeAlgorithms ''BTC_JPY'' btcJpy) None,
         Call (StartStreaming bitflyer btcJpy) None,
         Call (CreateTradeAlgorithms ''ETH_JPY'' ethJpy) None,
         Call (StartStreaming bitflyer ethJpy) None]\<rparr>)"
proof
  have k: "Suc 0 < length (startPlan refusingEnv readyIntegrator)"
    by (simp add: readyPlan)
  have step: "startPlan refusingEnv readyIntegrator ! Suc 0 = (bitflyer, StartStreaming bitflyer btcJpy)"
    by (simp add: readyPlan)
  have hist: "startHistory refusingEnv readyIntegrator (Suc 0)
                = [Call (CreateTradeAlgorithms ''BTC_JPY'' btcJpy) None]"
    by (simp add: startHistory_def readyPlan okTrace_def)
  have before: "\<forall>m<Suc 0. reply refusingEnv (startHistory refusingEnv readyIntegrator m)
                    (snd (startPlan refusingEnv readyIntegrator ! m)) = None"
    by (simp add: readyPlan reply_refusingEnv)
  have fails: "reply refusingEnv (startHistory refusingEnv readyIntegrator (Suc 0))
                 (snd (startPlan refusingEnv readyIntegrator ! Suc 0)) = Some (Error ''refused'')"
    by (simp add: step reply_refusingEnv)
  from startStreaming_rollback [of refusingEnv readyIntegrator] k before fails
  have "startStreaming refusingEnv readyIntegrator =
           (Some (Wrap (Error ''refused'') (startMessage (startPlan refusingEnv readyIntegrator ! Suc 0))),
            snd (stopStreaming refusingEnv
                  (readyIntegrator\<lparr>trace := startHistory refusingEnv readyIntegrator (Suc 0)
                      @ [Call (snd (startPlan refusingEnv readyIntegrator ! Suc 0)) (Some (Error ''refused''))]\<rparr>)))"
    by blast
  then have "startStreaming refusingEnv readyIntegrator =
           (Some (Wrap (Error ''refused'') (startMessage (bitflyer, StartStreaming bitflyer btcJpy))),
            snd (stopStreaming refusingEnv
                  (readyIntegrator\<lparr>trace := [Call (CreateTradeAlgorithms ''BTC_JPY'' btcJpy) None,
                      Call (StartStreaming bitflyer btcJpy) (Some (Error ''refused''))]\<rparr>)))"
    by (simp add: step hist)
  then show "startStreaming refusingEnv readyIntegrator =
     (Some (Wrap (Error ''refused'') ''can not start streaming (name = bitflyer)''),
      readyIntegrator\<lparr>trace :=
        [Call (CreateTradeAlgorithms ''BTC_JPY'' btcJpy) None,
         Call (StartStreaming bitflyer btcJpy) (Some (Error ''refused'')),
         Call (StopStreaming bitflyer btcJpy) (Some (Error ''not streaming'')),
         Log ''can not stop streaming (name = bitflyer)'',
         Call (DestroyTradeAlgorithms ''BTC_JPY'' btcJpy) None,
         Call (StopStreaming bitflyer ethJpy) (Some (Error ''not streaming'')),
         Log ''can not stop streaming (name = bitflyer)'',
         Call (DestroyTradeAlgorithms ''ETH_JPY'' ethJpy) None]\<rparr>)"
    by (simp add: startMessage_def stopStreaming_def
          rangeExchanges_def perform_def emit_def Let_def refusingEnv_def quietEnv_def
          readyIntegrator_def idleIntegrator_def bitflyer_def btcJpy_def ethJpy_def)
next
  have ok: "\<forall>k<length (startPlan quietEnv readyIntegrator).
          reply quietEnv (startHistory quietEnv readyIntegrator k)
            (snd (startPlan quietEnv readyIntegrator ! k)) = None"
    by (simp add: reply_quietEnv)
  from startStreaming_rollback [of quietEnv readyIntegrator] ok
  have "startStreaming quietEnv readyIntegrator =
      (None, readyIntegrator\<lparr>trace := startHistory quietEnv readyIntegrator
                                         (length (startPlan quietEnv readyIntegrator))\<rparr>)"
    by blast
  then show "startStreaming quietEnv readyIntegrator =
     (None, readyIntegrator\<lparr>trace :=
        [Call (CreateTradeAlgorithms ''BTC_JPY'' btcJpy) None,
         Call (StartStreaming bitflyer btcJpy) None,
         Call (CreateTradeAlgorithms ''ETH_JPY'' ethJpy) None,
         Call (StartStreaming bitflyer ethJpy) None]\<rparr>)"
    by (simp add: readyPlan startHistory_def okTrace_def)
qed

section \<open>Order of Start\<close>

lemma stopEvents_not_arbitrage: "list_all (\<lambda>ev. \<not> startedArbitrage ev) (stopEvents p r)"
  by (simp add: stopEvents_def split: option.split)

lemma stop_trace_not_arbitrage:
  "list_all (\<lambda>ev. \<not> startedArbitrage ev) (concat (map2 stopEvents ps rs))"
proof (induction ps arbitrary: rs)
  case Nil
  then show ?case by simp
next
  case (Cons p ps)
  then show ?case by (cases rs) (simp_all add: stopEvents_not_arbitrage)
qed

lemma startCalls_mem:
  "p \<in> set (startCalls exs) \<Longrightarrow>
     (\<exists>c. snd p = CreateTradeAlgorithms (GetID c) c) \<or> (\<exists>c. snd p = StartStreaming (fst p) c)"
  by (auto simp: startCalls_def)

lemma okTrace_startCalls:
  "list_all (\<lambda>ev. \<not> startedArbitrage ev \<and> \<not> stoppedStreaming ev) (okTrace (startCalls exs))"
  by (auto simp: list_all_iff okTrace_def dest!: startCalls_mem)

lemma runStart_None:
  "runStart env plan i = (None, i1) \<Longrightarrow> i1 = appendTrace (okTrace plan) i"
proof (induction plan arbitrary: i)
  case Nil
  then show ?case by (simp add: okTrace_def)
next
  case (Cons p ps)
  show ?case
  proof (cases "reply env (trace i) (snd p)")
    case None
    then have "runStart env ps (appendTrace [Call (snd p) None] i) = (None, i1)"
      using Cons.prems by simp
    from Cons.IH [OF this] show ?thesis by (simp add: okTrace_def)
  next
    case (Some err)
    then show ?thesis using Cons.prems by simp
  qed
qed

lemma runStart_Some:
  "runStart env plan i = (Some e, i1) \<Longrightarrow>
   list_all (\<lambda>ev. \<not> startedArbitrage ev) (okTrace plan) \<Longrightarrow>
   \<exists>evs. i1 = appendTrace evs i \<and> list_all (\<lambda>ev. \<not> startedArbitrage ev) evs"
proof (induction plan arbitrary: i)
  case Nil
  then show ?case by simp
next
  case (Cons p ps)
  have p: "\<not> startedArbitrage (Call (snd p) None)" and ps: "list_all (\<lambda>ev. \<not> startedArbitrage ev) (okTrace ps)"
    using Cons.prems(2) by (simp_all add: okTrace_def)
  show ?case
  proof (cases "reply env (trace i) (snd p)")
    case None
    then have "runStart env ps (appendTrace [Call (snd p) None] i) = (Some e, i1)"
      using Cons.prems(1) by simp
    from Cons.IH [OF this ps] obtain evs where
      evs: "i1 = appendTrace evs (appendTrace [Call (snd p) None] i)"
           "list_all (\<lambda>ev. \<not> startedArbitrage ev) evs"
      by blast
    have "i1 = appendTrace (Call (snd p) None # evs) i" using evs(1) by simp
    moreover have "list_all (\<lambda>ev. \<not> startedArbitrage ev) (Call (snd p) None # evs)"
      using p evs(2) by simp
    ultimately show ?thesis by blast
  next
    case (Some err)
    have p': "\<not> startedArbitrage (Call (snd p) (Some err))"
      using p by (cases "snd p") simp_all
    define j where "j = appendTrace [Call (snd p) (Some err)] i"
    have i1: "i1 = snd (stopStreaming env j)"
      using Cons.prems(1) Some by (simp add: j_def)
    obtain rs where "snd (stopStreaming env j)
          = appendTrace (concat (map2 stopEvents (contextsOf (rangeExchanges env j)) rs)) j"
      using stopStreaming_trace [of env j] by blast
    then have "i1 = appendTrace (Call (snd p) (Some err)
                 # concat (map2 stopEvents (contextsOf (rangeExchanges env j)) rs)) i"
      using i1 by (simp add: j_def)
    moreover have "list_all (\<lambda>ev. \<not> startedArbitrage ev)
        (Call (snd p) (Some err) # concat (map2 stopEvents (contextsOf (rangeExchanges env j)) rs))"
      using p' stop_trace_not_arbitrage by simp
    ultimately show ?thesis by blast
  qed
qed

text \<open>
  Claim C7. \<^verbatim>\<open>Start\<close> runs \<^verbatim>\<open>startStreaming\<close> first. If that fails, \<^verbatim>\<open>Start\<close>
  returns its error wrapped and stops in the state \<^verbatim>\<open>startStreaming\<close> left, in which
  nothing of the arbitrage start has happened. If it succeeds, no stream was stopped
  and no decision engine destroyed; the arbitrage algorithms are created next: on an
  error \<^verbatim>\<open>Start\<close> returns it wrapped twice and does nothing more (streaming stays as
  started, the loop is not launched), otherwise the loop is launched and \<^verbatim>\<open>Start\<close>
  returns nil.
\<close>

theorem Start_order:
  "(case startStreaming env i of
      (Some e, i1) \<Rightarrow>
        Start env i = (Some (Wrap e ''can not start streaming''), i1) \<and>
        (\<exists>evs. i1 = i\<lparr>trace := trace i @ evs\<rparr> \<and> list_all (\<lambda>ev. \<not> startedArbitrage ev) evs)
    | (None, i1) \<Rightarrow>
        (\<exists>evs. i1 = i\<lparr>trace := trace i @ evs\<rparr> \<and> list_all (\<lambda>ev. \<not> stoppedStreaming ev) evs \<and>
          (case reply env (trace i1) (CreateArbitrageTradeAlgorithms (exchanges i)) of
             Some err \<Rightarrow>
               Start env i =
                 (Some (Wrap (Wrap err ''can not create arbitrage algorithm'') ''can not start arbitarage''),
                  i\<lparr>trace := trace i @ evs @ [Call (CreateArbitrageTradeAlgorithms (exchanges i)) (Some err)]\<rparr>)
           | None \<Rightarrow>
               Start env i =
                 (None,
                  i\<lparr>trace := trace i @ evs @ [Call (CreateArbitrageTradeAlgorithms (exchanges i)) None,
                                                GoArbitrageLoop]\<rparr>))))"
proof (cases "startStreaming env i")
  case (Pair r i1)
  have plan: "list_all (\<lambda>ev. \<not> startedArbitrage ev \<and> \<not> stoppedStreaming ev) (okTrace (startPlan env i))"
    unfolding startPlan_def by (rule okTrace_startCalls)
  show ?thesis
  proof (cases r)
    case None
    have run: "runStart env (startPlan env i) i = (None, i1)"
      using Pair None by (simp add: startStreaming_runStart)
    have i1: "i1 = i\<lparr>trace := trace i @ okTrace (startPlan env i)\<rparr>"
      using runStart_None [OF run] by (simp add: appendTrace_def)
    have quiet: "list_all (\<lambda>ev. \<not> stoppedStreaming ev) (okTrace (startPlan env i))"
      using plan by (simp add: list_all_iff)
    have "case reply env (trace i1) (CreateArbitrageTradeAlgorithms (exchanges i)) of
             Some err \<Rightarrow>
               Start env i =
                 (Some (Wrap (Wrap err ''can not create arbitrage algorithm'') ''can not start arbitarage''),
                  i\<lparr>trace := trace i @ okTrace (startPlan env i)
                       @ [Call (CreateArbitrageTradeAlgorithms (exchanges i)) (Some err)]\<rparr>)
           | None \<Rightarrow>
               Start env i =
                 (None,
                  i\<lparr>trace := trace i @ okTrace (startPlan env i)
                       @ [Call (CreateArbitrageTradeAlgorithms (exchanges i)) None, GoArbitrageLoop]\<rparr>)"
      using Pair None i1
      by (simp add: Start_def startArbitrage_def perform_def emit_def Let_def split: option.split)
    then show ?thesis using Pair None i1 quiet by auto
  next
    case (Some e)
    have run: "runStart env (startPlan env i) i = (Some e, i1)"
      using Pair Some by (simp add: startStreaming_runStart)
    have "list_all (\<lambda>ev. \<not> startedArbitrage ev) (okTrace (startPlan env i))"
      using plan by (simp add: list_all_iff)
    from runStart_Some [OF run this] obtain evs where
      "i1 = appendTrace evs i" "list_all (\<lambda>ev. \<not> startedArbitrage ev) evs"
      by blast
    then have "\<exists>evs. i1 = i\<lparr>trace := trace i @ evs\<rparr> \<and> list_all (\<lambda>ev. \<not> startedArbitrage ev) evs"
      by (auto simp: appendTrace_def)
    then show ?thesis using Pair Some by (simp add: Start_def)
  qed
qed
text \<open>Evaluation of \<^verbatim>\<open>startStreaming\<close> on the example venue.\<close>

lemma startStreaming_refusing_ready:
  "startStreaming refusingEnv readyIntegrator =
     (Some (Wrap (Error ''refused'') ''can not start streaming (name = bitflyer)''),
      readyIntegrator\<lparr>trace :=
        [Call (CreateTradeAlgorithms ''BTC_JPY'' btcJpy) None,
         Call (StartStreaming bitflyer btcJpy) (Some (Error ''refused'')),
         Call (StopStreaming bitflyer btcJpy) (Some (Error ''not streaming'')),
         Log ''can not stop streaming (name = bitflyer)'',
         Call (DestroyTradeAlgorithms ''BTC_JPY'' btcJpy) None,
         Call (StopStreaming bitflyer ethJpy) (Some (Error ''not streaming'')),
         Log ''can not stop streaming (name = bitflyer)'',
         Call (DestroyTradeAlgorithms ''ETH_JPY'' ethJpy) None]\<rparr>)"
  by (simp add: startStreaming_def stopStreaming_def rangeExchanges_def perform_def emit_def Let_def
        refusingEnv_def quietEnv_def readyIntegrator_def idleIntegrator_def
        bitflyer_def btcJpy_def ethJpy_def)

lemma startStreaming_noArbitrage_ready:
  "startStreaming noArbitrageEnv readyIntegrator =
     (None, readyIntegrator\<lparr>trace :=
        [Call (CreateTradeAlgorithms ''BTC_JPY'' btcJpy) None,
         Call (StartStreaming bitflyer btcJpy) None,
         Call (CreateTradeAlgorithms ''ETH_JPY'' ethJpy) None,
         Call (StartStreaming bitflyer ethJpy) None]\<rparr>)"
  by (simp add: startStreaming_def rangeExchanges_def perform_def emit_def Let_def
        noArbitrageEnv_def quietEnv_def readyIntegrator_def idleIntegrator_def
        bitflyer_def btcJpy_def ethJpy_def)

lemma startStreaming_quiet_ready:
  "startStreaming quietEnv readyIntegrator =
     (None, readyIntegrator\<lparr>trace :=
        [Call (CreateTradeAlgorithms ''BTC_JPY'' btcJpy) None,
         Call (StartStreaming bitflyer btcJpy) None,
         Call (CreateTradeAlgorithms ''ETH_JPY'' ethJpy) None,
         Call (StartStreaming bitflyer ethJpy) None]\<rparr>)"
  by (simp add: startStreaming_def rangeExchanges_def perform_def emit_def Let_def
        quietEnv_def readyIntegrator_def idleIntegrator_def
        bitflyer_def btcJpy_def ethJpy_def)

lemma reply_noArbitrageEnv:
  "reply noArbitrageEnv tr c =
    (case c of CreateArbitrageTradeAlgorithms exs \<Rightarrow> Some (Error ''no arbitrage'') | _ \<Rightarrow> None)"
  by (simp add: noArbitrageEnv_def)

lemma trace_update_eq: "(i\<lparr>trace := a\<rparr> = i\<lparr>trace := b\<rparr>) = (a = b)"
proof
  assume "i\<lparr>trace := a\<rparr> = i\<lparr>trace := b\<rparr>"
  then have "trace (i\<lparr>trace := a\<rparr>) = trace (i\<lparr>trace := b\<rparr>)"
    by (rule arg_cong)
  then show "a = b" by simp
next
  assume "a = b"
  then show "i\<lparr>trace := a\<rparr> = i\<lparr>trace := b\<rparr>" by simp
qed

text \<open>
  The theorem for claim C7 at three runs: stream-open refused, creation of the
  arbitrage algorithms refused, nothing refused.
\<close>

theorem Start_order_witness:
  "fst (Start refusingEnv readyIntegrator) =
     Some (Wrap (Wrap (Error ''refused'') ''can not start streaming (name = bitflyer)'')
                ''can not start streaming'') \<and>
   Start noArbitrageEnv readyIntegrator =
     (Some (Wrap (Wrap (Error ''no arbitrage'') ''can not create arbitrage algorithm'')
                 ''can not start arbitarage''),
      readyIntegrator\<lparr>trace :=
        [Call (CreateTradeAlgorithms ''BTC_JPY'' btcJpy) None,
         Call (StartStreaming bitflyer btcJpy) None,
         Call (CreateTradeAlgorithms ''ETH_JPY'' ethJpy) None,
         Call (StartStreaming bitflyer ethJpy) None,
         Call (CreateArbitrageTradeAlgorithms [(''bitflyer'', bitflyer)]) (Some (Error ''no arbitrage''))]\<rparr>) \<and>
   Start quietEnv readyIntegrator =
     (None,
      readyIntegrator\<lparr>trace :=
        [Call (CreateTradeAlgorithms ''BTC_JPY'' btcJpy) None,
         Call (StartStreaming bitflyer btcJpy) None,
         Call (CreateTradeAlgorithms ''ETH_JPY'' ethJpy) None,
         Call (StartStreaming bitflyer ethJpy) None,
         Call (CreateArbitrageTradeAlgorithms [(''bitflyer'', bitflyer)]) None,
         GoArbitrageLoop]\<rparr>)"
proof (intro conjI)
  show "fst (Start refusingEnv readyIntegrator) =
     Some (Wrap (Wrap (Error ''refused'') ''can not start streaming (name = bitflyer)'')
                ''can not start streaming'')"
    using Start_order [where env = refusingEnv and i = readyIntegrator]
    by (simp add: startStreaming_refusing_ready)
next
  show "Start noArbitrageEnv readyIntegrator =
     (Some (Wrap (Wrap (Error ''no arbitrage'') ''can not create arbitrage algorithm'')
                 ''can not start arbitarage''),
      readyIntegrator\<lparr>trace :=
        [Call (CreateTradeAlgorithms ''BTC_JPY'' btcJpy) None,
         Call (StartStreaming bitflyer btcJpy) None,
         Call (CreateTradeAlgorithms ''ETH_JPY'' ethJpy) None,
         Call (StartStreaming bitflyer ethJpy) None,
         Call (CreateArbitrageTradeAlgorithms [(''bitflyer'', bitflyer)]) (Some (Error ''no arbitrage''))]\<rparr>)"
    using Start_order [where env = noArbitrageEnv and i = readyIntegrator]
    by (simp add: startStreaming_noArbitrage_ready reply_noArbitrageEnv
          exchanges_ready trace_update_eq)
next
  show "Start quietEnv readyIntegrator =
     (None,
      readyIntegrator\<lparr>trace :=
        [Call (CreateTradeAlgorithms ''BTC_JPY'' btcJpy) None,
         Call (StartStreaming bitflyer btcJpy) None,
         Call (CreateTradeAlgorithms ''ETH_JPY'' ethJpy) None,
         Call (StartStreaming bitflyer ethJpy) None,
         Call (CreateArbitrageTradeAlgorithms [(''bitflyer'', bitflyer)]) None,
         GoArbitrageLoop]\<rparr>)"
    using Start_order [where env = quietEnv and i = readyIntegrator]
    by (simp add: startStreaming_quiet_ready reply_quietEnv
          exchanges_ready trace_update_eq)
qed

section \<open>The venue registry follows its plan\<close>

lemma register_fields [simp]:
  "config (register p i) = config i"
  "gracefulServer (register p i) = gracefulServer i"
  "arbitrageLoopFinishChan (register p i) = arbitrageLoopFinishChan i"
  by (simp_all add: register_def split: sum.split)

lemma runInit_config [simp]: "config (snd (runInit plan i)) = config i"
  by (induction plan arbitrary: i) (simp_all split: sum.split option.split)

lemma runInit_append:
  "runInit (ps @ qs) i =
    (case runInit ps i of
       (Return None, i1) \<Rightarrow> runInit qs i1
     | (Return (Some e), i1) \<Rightarrow> (Return (Some e), i1)
     | (Panic p, i1) \<Rightarrow> (Panic p, i1))"
  by (induction ps arbitrary: i) (simp_all split: sum.split option.split)

lemma fieldPlan_Nil [simp]: "fieldPlan cfg name nf [] = []"
  by (simp add: fieldPlan_def)

lemma fieldPlan_Cons:
  "fieldPlan cfg name nf ((fname, tag) # fs) =
      (if tag \<noteq> name then []
       else case Exchanges cfg of
         None \<Rightarrow> []
       | Some v \<Rightarrow>
          (case v fname of
             None \<Rightarrow> []
           | Some cf \<Rightarrow> (case nf of None \<Rightarrow> [] | Some new \<Rightarrow> [(name, new, cf)])))
      @ fieldPlan cfg name nf fs"
  by (simp add: fieldPlan_def split: option.split)

lemma initFields_runInit:
  "initFields name nf fs i = runInit (fieldPlan (config i) name nf fs) i"
proof (induction fs arbitrary: i nf)
  case Nil
  then show ?case by simp
next
  case (Cons f fs)
  obtain fname tag where f: "f = (fname, tag)" by (cases f)
  show ?case
    by (simp add: f fieldPlan_Cons Cons.IH Finalize_def emit_def register_def appendTrace_def Let_def
             split: option.split sum.split)
qed

lemma initExchanges_runInit:
  "initExchanges t regs i =
     runInit (concat (map (\<lambda>r. fieldPlan (config i) (fst r) (snd r) t) regs)) i"
proof (induction regs arbitrary: i)
  case Nil
  then show ?case by simp
next
  case (Cons r regs)
  obtain name nf where r: "r = (name, nf)" by (cases r)
  obtain out i1 where run: "runInit (fieldPlan (config i) name nf t) i = (out, i1)"
    by (cases "runInit (fieldPlan (config i) name nf t) i")
  have cfg: "config i1 = config i"
    using runInit_config [of "fieldPlan (config i) name nf t" i] run by simp
  show ?case
    by (simp add: r initFields_runInit run runInit_append Cons.IH cfg
             split: outcome.split option.split)
qed

lemma Initialize_runInit:
  "Server (config i) = Some sc \<Longrightarrow>
   Initialize env i =
     runInit (constructPlan env (config i))
       (if AddrPort sc = [] then i
        else i\<lparr>gracefulServer := Some (AddrPort sc), trace := trace i @ [ListenAndServe (AddrPort sc)]\<rparr>)"
  by (simp add: Initialize_def initHttpServer_def initExchanges_runInit constructPlan_def emit_def Let_def
           split: option.split)


lemma runInit_fail_here:
  "plan = p # ps \<Longrightarrow> p = (name, new, cf) \<Longrightarrow> new cf = Inl err \<Longrightarrow>
   gracefulServer i = Some addr \<Longrightarrow>
   runInit plan i =
     (Return (Some (Wrap err (''can not create exchange of '' @ name))),
      appendTrace [Log (name @ '' exchange create''), NewExchange name cf, BlockingClose addr] i)"
  by simp

lemma runInit_step:
  "constructs p \<Longrightarrow> runInit (p # ps) i = runInit ps (register p i)"
  by (simp add: constructs_def split: sum.splits)

lemma runInit_fail:
  "k < length plan \<Longrightarrow>
   (\<And>m. m < k \<Longrightarrow> constructs (plan ! m)) \<Longrightarrow>
   plan ! k = (name, new, cf) \<Longrightarrow> new cf = Inl err \<Longrightarrow>
   gracefulServer i = Some addr \<Longrightarrow>
   runInit plan i =
     (Return (Some (Wrap err (''can not create exchange of '' @ name))),
      appendTrace [Log (name @ '' exchange create''), NewExchange name cf, BlockingClose addr]
        (fold register (take k plan) i))"
proof (induction plan arbitrary: i k)
  case Nil
  then show ?case by simp
next
  case (Cons p ps)
  show ?case
  proof (cases k)
    case 0
    have p: "p = (name, new, cf)" using Cons.prems(3) 0 by simp
    have "take k (p # ps) = []" using 0 by simp
    then show ?thesis
      using runInit_fail_here [OF refl p Cons.prems(4) Cons.prems(5), of ps] by simp
  next
    case (Suc j)
    have first: "constructs p" using Cons.prems(2) [of 0] Suc by simp
    have "runInit ps (register p i) =
      (Return (Some (Wrap err (''can not create exchange of '' @ name))),
       appendTrace [Log (name @ '' exchange create''), NewExchange name cf, BlockingClose addr]
         (fold register (take j ps) (register p i)))"
    proof (rule Cons.IH)
      show "j < length ps" using Cons.prems(1) Suc by simp
      show "ps ! j = (name, new, cf)" using Cons.prems(3) Suc by simp
      show "new cf = Inl err" by (rule Cons.prems(4))
      show "gracefulServer (register p i) = Some addr" using Cons.prems(5) by simp
      fix m assume "m < j"
      then show "constructs (ps ! m)" using Cons.prems(2) [of "Suc m"] Suc by simp
    qed
    moreover have "take k (p # ps) = p # take j ps" using Suc by simp
    ultimately show ?thesis
      by (simp only: runInit_step [OF first] fold_simps)
  qed
qed
lemma fieldPlan_nil_exchanges: "Exchanges cfg = None \<Longrightarrow> fieldPlan cfg name nf fs = []"
proof (induction fs)
  case Nil
  then show ?case by simp
next
  case (Cons f fs)
  obtain fname tag where f: "f = (fname, tag)" by (cases f)
  show ?case using Cons by (simp add: f fieldPlan_Cons)
qed

lemma constructPlan_nil_exchanges: "Exchanges cfg = None \<Longrightarrow> constructPlan env cfg = []"
  by (simp add: constructPlan_def fieldPlan_nil_exchanges)

lemma fold_register_gracefulServer [simp]:
  "gracefulServer (fold register ps i) = gracefulServer i"
  by (induction ps arbitrary: i) simp_all

text \<open>
  Claim C4, as amended. When the control-plane server was started (a server address
  that is not empty, no error within the wait) and the \<open>k\<close>-th planned constructor is
  the first to fail, \<^verbatim>\<open>Initialize\<close> returns that error wrapped in the message naming the
  venue. Its effects are: the constructions before \<open>k\<close>, which stay in the registry;
  the failing constructor call; the blocking close of the server. No later constructor
  is called.
\<close>

theorem Initialize_venue_failure:
  assumes server: "Server (config i) = Some sc" "AddrPort sc \<noteq> []"
      and bound: "startChan env (trace i) (AddrPort sc) = None"
      and k: "k < length (constructPlan env (config i))"
      and before: "\<forall>m<k. constructs (constructPlan env (config i) ! m)"
      and fails: "constructPlan env (config i) ! k = (name, new, cf)" "new cf = Inl err"
  shows "Initialize env i =
     (Return (Some (Wrap err (''can not create exchange of '' @ name))),
      appendTrace [Log (name @ '' exchange create''), NewExchange name cf, BlockingClose (AddrPort sc)]
        (fold register (take k (constructPlan env (config i)))
           (i\<lparr>gracefulServer := Some (AddrPort sc),
              trace := trace i @ [ListenAndServe (AddrPort sc)]\<rparr>)))"
proof -
  define j where "j = i\<lparr>gracefulServer := Some (AddrPort sc),
                          trace := trace i @ [ListenAndServe (AddrPort sc)]\<rparr>"
  have run: "Initialize env i = runInit (constructPlan env (config i)) j"
    using Initialize_runInit [OF server(1), of env] server(2) by (simp add: j_def)
  have srv: "gracefulServer j = Some (AddrPort sc)"
    by (simp add: j_def)
  have "runInit (constructPlan env (config i)) j =
     (Return (Some (Wrap err (''can not create exchange of '' @ name))),
      appendTrace [Log (name @ '' exchange create''), NewExchange name cf, BlockingClose (AddrPort sc)]
        (fold register (take k (constructPlan env (config i))) j))"
  proof (rule runInit_fail [OF k _ fails srv])
    fix m assume "m < k"
    then show "constructs (constructPlan env (config i) ! m)" using before by simp
  qed
  then show ?thesis using run by (simp add: j_def)
qed

lemma NewIntegrator_exchanges: "NewIntegrator env cfg configDir = Inr i \<Longrightarrow> exchanges i = []"
  by (auto simp: NewIntegrator_def split: option.splits)

text \<open>
  Claim C10, as amended. When \<^verbatim>\<open>Server\<close> is not nil, the server step does not fail
  and \<^verbatim>\<open>Exchanges\<close> is nil, \<^verbatim>\<open>Initialize\<close> returns nil, calls no constructor and
  leaves the registry as it was, whatever constructors are registered; the registry of
  an orchestrator fresh from \<^verbatim>\<open>NewIntegrator\<close> stays empty.
\<close>

theorem Initialize_nil_exchanges:
  assumes "Server (config i) = Some sc"
      and "AddrPort sc = [] \<or> startChan env (trace i) (AddrPort sc) = None"
      and "Exchanges (config i) = None"
  shows "fst (Initialize env i) = Return None \<and>
         exchanges (snd (Initialize env i)) = exchanges i \<and>
         trace (snd (Initialize env i)) =
           trace i @ (if AddrPort sc = [] then [] else [ListenAndServe (AddrPort sc)]) \<and>
         (\<forall>configDir. NewIntegrator env (config i) configDir = Inr i \<longrightarrow>
            exchanges (snd (Initialize env i)) = [])"
proof -
  have plan: "constructPlan env (config i) = []"
    using assms(3) by (rule constructPlan_nil_exchanges)
  have run: "Initialize env i =
     (Return None,
      if AddrPort sc = [] then i
      else i\<lparr>gracefulServer := Some (AddrPort sc), trace := trace i @ [ListenAndServe (AddrPort sc)]\<rparr>)"
    using Initialize_runInit [OF assms(1), of env] by (simp add: plan)
  have result: "fst (Initialize env i) = Return None"
    by (simp add: run)
  have registry: "exchanges (snd (Initialize env i)) = exchanges i"
    by (simp add: run)
  have effects: "trace (snd (Initialize env i)) =
           trace i @ (if AddrPort sc = [] then [] else [ListenAndServe (AddrPort sc)])"
    by (simp add: run)
  have fresh: "exchanges i = []" if "NewIntegrator env (config i) configDir = Inr i" for configDir
    using that by (rule NewIntegrator_exchanges)
  show ?thesis
  proof (intro conjI allI impI)
    fix configDir assume "NewIntegrator env (config i) configDir = Inr i"
    then show "exchanges (snd (Initialize env i)) = []"
      using fresh registry by simp
  qed (rule result registry effects)+
qed
text \<open>Evaluation on the example configuration.\<close>

lemma constructPlan_venues:
  "constructPlan venuesEnv boundConfig =
     [(''bitflyer'', (\<lambda>cf. Inr bitflyer), bitflyerConf),
      (''zaif'', (\<lambda>cf. Inl (Error ''bad key'')), zaifConf)]"
  by (simp add: constructPlan_def fieldPlan_def venuesEnv_def quietEnv_def boundConfig_def)

lemma config_bound: "config boundIntegrator = boundConfig"
  by (simp add: boundIntegrator_def)

lemma trace_bound: "trace boundIntegrator = []"
  by (simp add: boundIntegrator_def idleIntegrator_def)

lemma Server_bound: "Server boundConfig = Some \<lparr>Debug = False, AddrPort = ''127.0.0.1:8080''\<rparr>"
  by (simp add: boundConfig_def)

lemma startChan_venues: "startChan venuesEnv tr addr = None"
  by (simp add: venuesEnv_def quietEnv_def)

text \<open>
  The theorem for claim C4 at a concrete run: the first venue is constructed, the
  constructor of the second returns an error.
\<close>

theorem Initialize_venue_failure_witness:
  "Initialize venuesEnv boundIntegrator =
     (Return (Some (Wrap (Error ''bad key'') ''can not create exchange of zaif'')),
      boundIntegrator
        \<lparr>gracefulServer := Some ''127.0.0.1:8080'',
         exchanges := [(''bitflyer'', bitflyer)],
         trace := [ListenAndServe ''127.0.0.1:8080'',
                   Log ''bitflyer exchange create'', NewExchange ''bitflyer'' bitflyerConf,
                   ExchangeInitialize bitflyer,
                   Log ''zaif exchange create'', NewExchange ''zaif'' zaifConf,
                   BlockingClose ''127.0.0.1:8080'']\<rparr>)"
proof -
  let ?sc = "\<lparr>Debug = False, AddrPort = ''127.0.0.1:8080''\<rparr>"
  have server: "Server (config boundIntegrator) = Some ?sc" "AddrPort ?sc \<noteq> []"
    by (simp_all add: config_bound Server_bound)
  have bound: "startChan venuesEnv (trace boundIntegrator) (AddrPort ?sc) = None"
    by (rule startChan_venues)
  have k: "Suc 0 < length (constructPlan venuesEnv (config boundIntegrator))"
    by (simp add: config_bound constructPlan_venues)
  have before: "\<forall>m<Suc 0. constructs (constructPlan venuesEnv (config boundIntegrator) ! m)"
    by (simp add: config_bound constructPlan_venues constructs_def)
  have fails: "constructPlan venuesEnv (config boundIntegrator) ! Suc 0
                 = (''zaif'', (\<lambda>cf. Inl (Error ''bad key'')), zaifConf)"
              "(\<lambda>cf. Inl (Error ''bad key'')) zaifConf = Inl (Error ''bad key'')"
    by (simp_all add: config_bound constructPlan_venues)
  have "Initialize venuesEnv boundIntegrator =
     (Return (Some (Wrap (Error ''bad key'') (''can not create exchange of '' @ ''zaif''))),
      appendTrace [Log (''zaif'' @ '' exchange create''), NewExchange ''zaif'' zaifConf,
                   BlockingClose (AddrPort ?sc)]
        (fold register (take (Suc 0) (constructPlan venuesEnv (config boundIntegrator)))
           (boundIntegrator\<lparr>gracefulServer := Some (AddrPort ?sc),
              trace := trace boundIntegrator @ [ListenAndServe (AddrPort ?sc)]\<rparr>)))"
    by (rule Initialize_venue_failure [OF server bound k before fails])
  then show ?thesis
    by (simp add: config_bound constructPlan_venues trace_bound register_def appendTrace_def
          boundIntegrator_def idleIntegrator_def)
qed

text \<open>
  Claim C4 as stated fails at that run: after the error the connector built first is
  still in the registry, and the only effect after the failing constructor call is the
  close of the server; nothing is done to the venue already constructed.
\<close>

theorem Initialize_leaves_venues_registered:
  "fst (Initialize venuesEnv boundIntegrator) =
     Return (Some (Wrap (Error ''bad key'') ''can not create exchange of zaif'')) \<and>
   exchanges (snd (Initialize venuesEnv boundIntegrator)) = [(''bitflyer'', bitflyer)] \<and>
   trace (snd (Initialize venuesEnv boundIntegrator)) =
     [ListenAndServe ''127.0.0.1:8080'',
      Log ''bitflyer exchange create'', NewExchange ''bitflyer'' bitflyerConf,
      ExchangeInitialize bitflyer,
      Log ''zaif exchange create'', NewExchange ''zaif'' zaifConf,
      BlockingClose ''127.0.0.1:8080'']"
  by (simp add: Initialize_def initHttpServer_def Finalize_def emit_def Let_def
        venuesEnv_def quietEnv_def boundIntegrator_def idleIntegrator_def boundConfig_def)

text \<open>
  The theorem for claim C10 at a concrete run, with two constructors registered.
\<close>

theorem Initialize_nil_exchanges_witness:
  "fst (Initialize venuesEnv idleIntegrator) = Return None \<and>
   exchanges (snd (Initialize venuesEnv idleIntegrator)) = [] \<and>
   trace (snd (Initialize venuesEnv idleIntegrator)) = []"
proof -
  let ?sc = "\<lparr>Debug = False, AddrPort = []\<rparr>"
  have "Server (config idleIntegrator) = Some ?sc"
    and "AddrPort ?sc = [] \<or> startChan venuesEnv (trace idleIntegrator) (AddrPort ?sc) = None"
    and "Exchanges (config idleIntegrator) = None"
    by (simp_all add: idleIntegrator_def)
  from Initialize_nil_exchanges [OF this]
  show ?thesis by (simp add: idleIntegrator_def)
qed

text \<open>
  Claim C10 as stated fails when \<^verbatim>\<open>Server\<close> is nil as well: \<^verbatim>\<open>initHttpServer\<close> reads
  \<^verbatim>\<open>i.config.Server.AddrPort\<close> and panics.
\<close>

theorem Initialize_nil_server_panics:
  "Exchanges (config headlessIntegrator) = None \<and>
   fst (Initialize quietEnv headlessIntegrator) = Panic NilPointerDereference"
  by (simp add: Initialize_def initHttpServer_def headlessIntegrator_def)

text \<open>
  Claim C2 at a failing input: the server cannot bind, \<^verbatim>\<open>initHttpServer\<close> returns the
  error, and \<^verbatim>\<open>Initialize\<close> still constructs the venue and returns nil.
\<close>

theorem Initialize_ignores_server_error:
  "fst (initHttpServer portInUseEnv boundIntegrator) =
     Return (Some (Wrap (Error ''bind: address already in use'')
                        ''can not start http server (127.0.0.1:8080)'')) \<and>
   fst (Initialize portInUseEnv boundIntegrator) = Return None \<and>
   exchanges (snd (Initialize portInUseEnv boundIntegrator)) = [(''bitflyer'', bitflyer)] \<and>
   trace (snd (Initialize portInUseEnv boundIntegrator)) =
     [ListenAndServe ''127.0.0.1:8080'',
      Log ''bitflyer exchange create'', NewExchange ''bitflyer'' bitflyerConf,
      ExchangeInitialize bitflyer]"
  by (simp add: Initialize_def initHttpServer_def emit_def Let_def
        portInUseEnv_def quietEnv_def boundIntegrator_def idleIntegrator_def boundConfig_def)

text \<open>
  Claim C3 at a failing input: with an empty server address \<^verbatim>\<open>Initialize\<close> succeeds
  and changes nothing, \<^verbatim>\<open>gracefulServer\<close> stays nil, and \<^verbatim>\<open>Finalize\<close> panics on it.
\<close>

theorem Finalize_without_server_panics:
  "Server (config idleIntegrator) = Some \<lparr>Debug = False, AddrPort = []\<rparr> \<and>
   Initialize quietEnv idleIntegrator = (Return None, idleIntegrator) \<and>
   gracefulServer (snd (Initialize quietEnv idleIntegrator)) = None \<and>
   fst (Finalize (snd (Initialize quietEnv idleIntegrator))) = Panic NilPointerDereference"
  by (simp add: Initialize_def initHttpServer_def Finalize_def quietEnv_def idleIntegrator_def)

section \<open>The callback forwards\<close>

text \<open>
  Claim C9. \<^verbatim>\<open>streamingCallback\<close> always returns nil. Its only effects are the call
  of \<^verbatim>\<open>UpdateTradeAlgorithms\<close> with the context's identifier and the context, and a log
  line when that call returned an error.
\<close>

theorem streamingCallback_forwards:
  "fst (streamingCallback env tradeContext i) = None \<and>
   snd (streamingCallback env tradeContext i) =
     i\<lparr>trace := trace i @
        Call (UpdateTradeAlgorithms (GetID tradeContext) tradeContext)
             (reply env (trace i) (UpdateTradeAlgorithms (GetID tradeContext) tradeContext))
        # (case reply env (trace i) (UpdateTradeAlgorithms (GetID tradeContext) tradeContext) of
             Some e \<Rightarrow> [Log (''can not run algorithm (reason = '' @ errorString e @ '')'')]
           | None \<Rightarrow> [])\<rparr>"
  by (simp add: streamingCallback_def perform_def emit_def Let_def split: option.split)

section \<open>Stopping the arbitrage loop twice\<close>

text \<open>
  Claim C1, as amended. On an open finish channel \<^verbatim>\<open>stopArbitrageTrade\<close> closes the
  channel, destroys the arbitrage algorithms (an error is logged) and returns nil; a
  second call right after it panics, because the channel is closed already.
\<close>

theorem stopArbitrageTrade_one_shot:
  assumes "arbitrageLoopFinishChan i = Open"
  shows "stopArbitrageTrade env i =
           (Return None,
            i\<lparr>arbitrageLoopFinishChan := Closed,
              trace := trace i @ CloseFinishChan
                # Call (DestroyArbitrageTradeAlgorithms (exchanges i))
                       (reply env (trace i @ [CloseFinishChan]) (DestroyArbitrageTradeAlgorithms (exchanges i)))
                # (case reply env (trace i @ [CloseFinishChan]) (DestroyArbitrageTradeAlgorithms (exchanges i)) of
                     Some e \<Rightarrow> [Log (''can not destroy arbitrage algorithm (reason = '' @ errorString e @ '')'')]
                   | None \<Rightarrow> [])\<rparr>) \<and>
         fst (stopArbitrageTrade env (snd (stopArbitrageTrade env i))) = Panic CloseOfClosedChannel"
  using assms
  by (simp add: stopArbitrageTrade_def perform_def emit_def Let_def split: option.split)

text \<open>The theorem at a concrete run in which the destroy call fails.\<close>

theorem stopArbitrageTrade_one_shot_witness:
  "stopArbitrageTrade failingEnv readyIntegrator =
     (Return None,
      readyIntegrator\<lparr>arbitrageLoopFinishChan := Closed,
        trace := [CloseFinishChan,
                  Call (DestroyArbitrageTradeAlgorithms [(''bitflyer'', bitflyer)]) (Some (Error ''down'')),
                  Log ''can not destroy arbitrage algorithm (reason = down)'']\<rparr>) \<and>
   fst (stopArbitrageTrade failingEnv (snd (stopArbitrageTrade failingEnv readyIntegrator)))
     = Panic CloseOfClosedChannel"
proof -
  have "arbitrageLoopFinishChan readyIntegrator = Open"
    by (simp add: readyIntegrator_def idleIntegrator_def)
  note once = stopArbitrageTrade_one_shot [OF this, of failingEnv]
  show ?thesis
  proof
    show "stopArbitrageTrade failingEnv readyIntegrator =
     (Return None,
      readyIntegrator\<lparr>arbitrageLoopFinishChan := Closed,
        trace := [CloseFinishChan,
                  Call (DestroyArbitrageTradeAlgorithms [(''bitflyer'', bitflyer)]) (Some (Error ''down'')),
                  Log ''can not destroy arbitrage algorithm (reason = down)'']\<rparr>)"
      using once [THEN conjunct1] by (simp add: reply_failingEnv exchanges_ready)
    show "fst (stopArbitrageTrade failingEnv (snd (stopArbitrageTrade failingEnv readyIntegrator)))
            = Panic CloseOfClosedChannel"
      by (rule once [THEN conjunct2])
  qed
qed

text \<open>
  Claim C1 as stated fails: after a successful \<^verbatim>\<open>Start\<close> the first stop returns nil
  and the second panics.
\<close>

theorem stopArbitrageTrade_twice_panics:
  "fst (Start quietEnv readyIntegrator) = None \<and>
   fst (stopArbitrageTrade quietEnv (snd (Start quietEnv readyIntegrator))) = Return None \<and>
   fst (stopArbitrageTrade quietEnv
          (snd (stopArbitrageTrade quietEnv (snd (Start quietEnv readyIntegrator)))))
     = Panic CloseOfClosedChannel"
  by (simp add: stopArbitrageTrade_def Start_def startStreaming_def startArbitrage_def
        rangeExchanges_def perform_def emit_def Let_def quietEnv_def
        readyIntegrator_def idleIntegrator_def bitflyer_def)

section \<open>The arbitrage loop and its cancellation\<close>

lemma arbitrageTick_chan [simp]:
  "arbitrageLoopFinishChan (arbitrageTick env i) = arbitrageLoopFinishChan i"
  by (simp add: arbitrageTick_def perform_def emit_def Let_def split: option.split)

lemma arbitrageTicks_chan [simp]:
  "arbitrageLoopFinishChan ((arbitrageTick env ^^ n) i) = arbitrageLoopFinishChan i"
  by (induction n) simp_all

lemma arbitrageSelect_Finish:
  "arbitrageSelect env i = FinishCase \<Longrightarrow> arbitrageLoopFinishChan i = Closed"
  by (cases "arbitrageLoopFinishChan i") (simp_all add: arbitrageSelect_def)

lemma ArbitrageLoop_Finish: "arbitrageSelect env i = FinishCase \<Longrightarrow> ArbitrageLoop env i = Some i"
  by (subst ArbitrageLoop.simps) simp

lemma ArbitrageLoop_Tick:
  "arbitrageSelect env i = TickCase \<Longrightarrow> ArbitrageLoop env i = ArbitrageLoop env (arbitrageTick env i)"
  by (subst ArbitrageLoop.simps) simp

lemma ArbitrageLoop_after:
  "arbitrageSelect env ((arbitrageTick env ^^ n) i) = FinishCase \<Longrightarrow>
   (\<And>m. m < n \<Longrightarrow> arbitrageSelect env ((arbitrageTick env ^^ m) i) = TickCase) \<Longrightarrow>
   ArbitrageLoop env i = Some ((arbitrageTick env ^^ n) i)"
proof (induction n arbitrary: i)
  case 0
  then show ?case by (simp add: ArbitrageLoop_Finish)
next
  case (Suc n)
  have first: "arbitrageSelect env i = TickCase"
    using Suc.prems(2) [of 0] by simp
  have "ArbitrageLoop env (arbitrageTick env i) = Some ((arbitrageTick env ^^ n) (arbitrageTick env i))"
  proof (rule Suc.IH)
    show "arbitrageSelect env ((arbitrageTick env ^^ n) (arbitrageTick env i)) = FinishCase"
      using Suc.prems(1) by (simp add: funpow_swap1)
    fix m assume "m < n"
    then show "arbitrageSelect env ((arbitrageTick env ^^ m) (arbitrageTick env i)) = TickCase"
      using Suc.prems(2) [of "Suc m"] by (simp add: funpow_swap1)
  qed
  then show ?case
    by (simp add: ArbitrageLoop_Tick [OF first] funpow_swap1)
qed

lemma ArbitrageLoop_returns:
  assumes "ArbitrageLoop env i = Some i'"
  shows "\<exists>n. i' = (arbitrageTick env ^^ n) i \<and> arbitrageSelect env i' = FinishCase \<and>
       (\<forall>m<n. arbitrageSelect env ((arbitrageTick env ^^ m) i) = TickCase)"
proof (rule ArbitrageLoop.raw_induct
    [where P = "\<lambda>e j y. \<exists>n. y = (arbitrageTick e ^^ n) j \<and> arbitrageSelect e y = FinishCase \<and>
          (\<forall>m<n. arbitrageSelect e ((arbitrageTick e ^^ m) j) = TickCase)", OF _ assms])
  fix loop :: "env \<Rightarrow> Integrator \<Rightarrow> Integrator option" and env i i'
  assume IH: "\<And>e j y. loop e j = Some y \<Longrightarrow>
      \<exists>n. y = (arbitrageTick e ^^ n) j \<and> arbitrageSelect e y = FinishCase \<and>
          (\<forall>m<n. arbitrageSelect e ((arbitrageTick e ^^ m) j) = TickCase)"
  assume pass: "(case arbitrageSelect env i of
                   FinishCase \<Rightarrow> Some i
                 | TickCase \<Rightarrow> loop env (arbitrageTick env i)) = Some i'"
  show "\<exists>n. i' = (arbitrageTick env ^^ n) i \<and> arbitrageSelect env i' = FinishCase \<and>
       (\<forall>m<n. arbitrageSelect env ((arbitrageTick env ^^ m) i) = TickCase)"
  proof (cases "arbitrageSelect env i")
    case FinishCase
    then have "i' = i" using pass by simp
    then have "i' = (arbitrageTick env ^^ 0) i \<and> arbitrageSelect env i' = FinishCase \<and>
       (\<forall>m<0. arbitrageSelect env ((arbitrageTick env ^^ m) i) = TickCase)"
      using FinishCase by simp
    then show ?thesis by blast
  next
    case TickCase
    then have "loop env (arbitrageTick env i) = Some i'" using pass by simp
    from IH [OF this] obtain n where
      n: "i' = (arbitrageTick env ^^ n) (arbitrageTick env i)"
         "arbitrageSelect env i' = FinishCase"
         "\<forall>m<n. arbitrageSelect env ((arbitrageTick env ^^ m) (arbitrageTick env i)) = TickCase"
      by blast
    have "i' = (arbitrageTick env ^^ Suc n) i"
      using n(1) by (simp add: funpow_swap1)
    moreover have "\<forall>m<Suc n. arbitrageSelect env ((arbitrageTick env ^^ m) i) = TickCase"
    proof (intro allI impI)
      fix m assume m: "m < Suc n"
      show "arbitrageSelect env ((arbitrageTick env ^^ m) i) = TickCase"
      proof (cases m)
        case 0
        then show ?thesis using TickCase by simp
      next
        case (Suc k)
        then have "k < n" using m by simp
        then show ?thesis using n(3) Suc by (simp add: funpow_swap1)
      qed
    qed
    ultimately show ?thesis using n(2) by blast
  qed
qed

text \<open>
  Claim C8, as amended. A select that finds the finish channel closed and the timer not
  fired takes the finish case, and the loop returns at once, with no update. When the
  channel is closed and the timer has fired as well, the select takes whichever case
  the runtime picks: the finish case has no priority. A pass that takes the timer case
  runs the update and goes on. The loop returns exactly when a select takes the finish
  case, in the state reached by the updates before it, and invokes no update after
  that. While the channel is open the loop never returns.
\<close>

theorem ArbitrageLoop_cooperative:
  "(arbitrageLoopFinishChan i = Closed \<longrightarrow> \<not> timerFired env (trace i) \<longrightarrow>
      ArbitrageLoop env i = Some i) \<and>
   (arbitrageLoopFinishChan i = Closed \<longrightarrow> timerFired env (trace i) \<longrightarrow>
      arbitrageSelect env i = selectBoth env (trace i)) \<and>
   (arbitrageSelect env i = TickCase \<longrightarrow>
      ArbitrageLoop env i = ArbitrageLoop env (arbitrageTick env i)) \<and>
   (\<forall>i'. ArbitrageLoop env i = Some i' \<longleftrightarrow>
      (\<exists>n. i' = (arbitrageTick env ^^ n) i \<and> arbitrageSelect env i' = FinishCase \<and>
           (\<forall>m<n. arbitrageSelect env ((arbitrageTick env ^^ m) i) = TickCase))) \<and>
   (arbitrageLoopFinishChan i = Open \<longrightarrow> ArbitrageLoop env i = None)"
proof (intro conjI allI impI)
  assume "arbitrageLoopFinishChan i = Closed" and "\<not> timerFired env (trace i)"
  then have "arbitrageSelect env i = FinishCase"
    by (simp add: arbitrageSelect_def)
  then show "ArbitrageLoop env i = Some i" by (rule ArbitrageLoop_Finish)
next
  assume "arbitrageLoopFinishChan i = Closed" and "timerFired env (trace i)"
  then show "arbitrageSelect env i = selectBoth env (trace i)"
    by (simp add: arbitrageSelect_def)
next
  assume "arbitrageSelect env i = TickCase"
  then show "ArbitrageLoop env i = ArbitrageLoop env (arbitrageTick env i)"
    by (rule ArbitrageLoop_Tick)
next
  fix i'
  show "ArbitrageLoop env i = Some i' \<longleftrightarrow>
      (\<exists>n. i' = (arbitrageTick env ^^ n) i \<and> arbitrageSelect env i' = FinishCase \<and>
           (\<forall>m<n. arbitrageSelect env ((arbitrageTick env ^^ m) i) = TickCase))"
  proof
    assume "ArbitrageLoop env i = Some i'"
    then show "\<exists>n. i' = (arbitrageTick env ^^ n) i \<and> arbitrageSelect env i' = FinishCase \<and>
           (\<forall>m<n. arbitrageSelect env ((arbitrageTick env ^^ m) i) = TickCase)"
      by (rule ArbitrageLoop_returns)
  next
    assume "\<exists>n. i' = (arbitrageTick env ^^ n) i \<and> arbitrageSelect env i' = FinishCase \<and>
           (\<forall>m<n. arbitrageSelect env ((arbitrageTick env ^^ m) i) = TickCase)"
    then obtain n where n: "i' = (arbitrageTick env ^^ n) i"
        "arbitrageSelect env ((arbitrageTick env ^^ n) i) = FinishCase"
        "\<And>m. m < n \<Longrightarrow> arbitrageSelect env ((arbitrageTick env ^^ m) i) = TickCase"
      by blast
    show "ArbitrageLoop env i = Some i'"
      unfolding n(1) using n(2) n(3) by (rule ArbitrageLoop_after)
  qed
next
  assume open_chan: "arbitrageLoopFinishChan i = Open"
  show "ArbitrageLoop env i = None"
  proof (cases "ArbitrageLoop env i")
    case None
    then show ?thesis .
  next
    case (Some i')
    from ArbitrageLoop_returns [OF this] obtain n where
      "i' = (arbitrageTick env ^^ n) i" "arbitrageSelect env i' = FinishCase"
      by blast
    then have "arbitrageLoopFinishChan i = Closed"
      using arbitrageSelect_Finish [of env i'] by simp
    then show ?thesis using open_chan by simp
  qed
qed

text \<open>Evaluation after \<^verbatim>\<open>Start\<close> and \<^verbatim>\<open>stopArbitrageTrade\<close> on the example venue.\<close>

lemma chan_ready: "arbitrageLoopFinishChan readyIntegrator = Open"
  by (simp add: readyIntegrator_def idleIntegrator_def)

lemma stopped_quiet:
  "snd (stopArbitrageTrade quietEnv (snd (Start quietEnv readyIntegrator))) =
     readyIntegrator
       \<lparr>arbitrageLoopFinishChan := Closed,
        trace :=
          [Call (CreateTradeAlgorithms ''BTC_JPY'' btcJpy) None,
           Call (StartStreaming bitflyer btcJpy) None,
           Call (CreateTradeAlgorithms ''ETH_JPY'' ethJpy) None,
           Call (StartStreaming bitflyer ethJpy) None,
           Call (CreateArbitrageTradeAlgorithms [(''bitflyer'', bitflyer)]) None,
           GoArbitrageLoop,
           CloseFinishChan,
           Call (DestroyArbitrageTradeAlgorithms [(''bitflyer'', bitflyer)]) None]\<rparr>"
  by (simp add: stopArbitrageTrade_def Start_def startStreaming_def startArbitrage_def
        rangeExchanges_def perform_def emit_def Let_def quietEnv_def
        readyIntegrator_def idleIntegrator_def bitflyer_def btcJpy_def ethJpy_def)

text \<open>
  The theorem at two runs: after \<^verbatim>\<open>stopArbitrageTrade\<close> with the timer not fired the
  loop returns without an update; with the channel still open it does not return.
\<close>

theorem ArbitrageLoop_cooperative_witness:
  "ArbitrageLoop quietEnv (snd (stopArbitrageTrade quietEnv (snd (Start quietEnv readyIntegrator))))
     = Some (snd (stopArbitrageTrade quietEnv (snd (Start quietEnv readyIntegrator)))) \<and>
   ArbitrageLoop quietEnv readyIntegrator = None"
proof
  let ?j = "snd (stopArbitrageTrade quietEnv (snd (Start quietEnv readyIntegrator)))"
  have closed: "arbitrageLoopFinishChan ?j = Closed"
    by (simp add: stopped_quiet)
  have timer: "\<not> timerFired quietEnv (trace ?j)"
    by (simp add: quietEnv_def)
  show "ArbitrageLoop quietEnv ?j = Some ?j"
    using ArbitrageLoop_cooperative [where env = quietEnv and i = ?j] closed timer by blast
next
  show "ArbitrageLoop quietEnv readyIntegrator = None"
    using ArbitrageLoop_cooperative [where env = quietEnv and i = readyIntegrator] chan_ready
    by blast
qed

text \<open>
  Claim C8 as stated fails: \<^verbatim>\<open>stopArbitrageTrade\<close> has returned, the loop's select
  finds both cases ready and takes the timer case, and the update is invoked after the
  destroy call.
\<close>

theorem ArbitrageLoop_late_tick:
  "fst (stopArbitrageTrade lateTickEnv (snd (Start lateTickEnv readyIntegrator))) = Return None \<and>
   map_option trace
     (ArbitrageLoop lateTickEnv (snd (stopArbitrageTrade lateTickEnv (snd (Start lateTickEnv readyIntegrator)))))
     = Some [Call (CreateTradeAlgorithms ''BTC_JPY'' btcJpy) None,
             Call (StartStreaming bitflyer btcJpy) None,
             Call (CreateTradeAlgorithms ''ETH_JPY'' ethJpy) None,
             Call (StartStreaming bitflyer ethJpy) None,
             Call (CreateArbitrageTradeAlgorithms [(''bitflyer'', bitflyer)]) None,
             GoArbitrageLoop,
             CloseFinishChan,
             Call (DestroyArbitrageTradeAlgorithms [(''bitflyer'', bitflyer)]) None,
             Call (UpdateArbitrageTradeAlgorithms [(''bitflyer'', bitflyer)]) None]"
  by (simp add: ArbitrageLoop.simps arbitrageSelect_def arbitrageTick_def
        stopArbitrageTrade_def Start_def startStreaming_def startArbitrage_def
        rangeExchanges_def perform_def emit_def Let_def lateTickEnv_def quietEnv_def
        readyIntegrator_def idleIntegrator_def bitflyer_def btcJpy_def ethJpy_def)

end
